theory Spec2Isabelle
  imports Complex_Main "HOL-Library.Multiset"
begin

section \<open>Data model of kairosDB.ts\<close>

text \<open>
  The source file holds two versions of the module. The model follows the first one, which
  declares \<open>errors\<close> on the response and throws the joined messages in \<open>read\<close>; the
  second differs in the transport options and throws the array of messages itself.

  The times of the client (the clock, the interval, the dead interval and the bounds of a
  request) are whole milliseconds and are modelled as \<open>int\<close>. The numbers that come
  from outside, the components of an item and with them the counts, are values of the type
  \<open>number\<close> below. A property that the source may leave \<open>undefined\<close> is an
  \<open>option\<close>.
\<close>

section \<open>Numbers\<close>

text \<open>
  A JavaScript number is a double: a finite value, an infinity or NaN. A finite value is
  given by the rational it denotes; the two zeros denote the same rational, and none of
  \<open>!==\<close>, \<open>>\<close> and \<open>+\<close> followed by these tells them apart. The type has a value
  for every rational, the doubles among them; what is proved for all of its values holds
  for the doubles, and every result of an addition is a double.
\<close>

datatype number = Num rat | PosInf | NegInf | NaN

text \<open>\<open>a !== b\<close> on numbers: NaN differs from every number, itself included.\<close>

definition strict_neq :: "number \<Rightarrow> number \<Rightarrow> bool" where
  "strict_neq a b = (a = NaN \<or> b = NaN \<or> a \<noteq> b)"

text \<open>\<open>a > b\<close> on numbers: every comparison with NaN is false.\<close>

definition js_gt :: "number \<Rightarrow> number \<Rightarrow> bool" where
  "js_gt a b =
     (case (a, b) of
        (Num x, Num y) \<Rightarrow> y < x
      | (Num x, NegInf) \<Rightarrow> True
      | (PosInf, Num y) \<Rightarrow> True
      | (PosInf, NegInf) \<Rightarrow> True
      | _ \<Rightarrow> False)"

text \<open>
  Rounding to the nearest whole number, a tie going to the even one.
\<close>

definition round_half_even :: "rat \<Rightarrow> int" where
  "round_half_even x =
     (let f = \<lfloor>x\<rfloor>; d = x - of_int f
      in if d < 1 / 2 then f else if 1 / 2 < d then f + 1 else if even f then f else f + 1)"

text \<open>
  The doubles of a magnitude up to \<open>2^53 * q\<close> are the multiples of the spacing \<open>q\<close>, a
  power of two; the least spacing is \<open>2^-1074\<close> and a magnitude of \<open>2^1024\<close> overflows.
\<close>

definition significand_bound :: rat where
  "significand_bound = 2 ^ 53"

definition min_ulp :: rat where
  "min_ulp = 1 / 2 ^ 1074"

definition overflow_bound :: rat where
  "overflow_bound = 2 ^ 1024"

text \<open>
  The spacing of the doubles around the magnitude \<open>a\<close>: the least spacing, doubled until
  \<open>a\<close> is within 53 bits of it. After 2045 doublings the spacing is \<open>2^971\<close>, that of
  the largest doubles.
\<close>

fun ulp_from :: "nat \<Rightarrow> rat \<Rightarrow> rat \<Rightarrow> rat" where
  "ulp_from 0 a q = q"
| "ulp_from (Suc n) a q = (if a \<le> significand_bound * q then q else ulp_from n a (2 * q))"

definition ulp :: "rat \<Rightarrow> rat" where
  "ulp a = ulp_from 2045 a min_ulp"

text \<open>
  The double nearest to a rational, ties to the even significand, as the arithmetic of
  the language rounds every result; a result of magnitude \<open>2^1024\<close> is an infinity.
\<close>

definition round_double :: "rat \<Rightarrow> number" where
  "round_double x =
     (let a = \<bar>x\<bar>; q = ulp a; r = of_int (round_half_even (a / q)) * q
      in if overflow_bound \<le> r then (if x < 0 then NegInf else PosInf)
         else Num (if x < 0 then - r else r))"

text \<open>\<open>a + b\<close> on numbers.\<close>

definition js_add :: "number \<Rightarrow> number \<Rightarrow> number" where
  "js_add a b =
     (case (a, b) of
        (Num x, Num y) \<Rightarrow> round_double (x + y)
      | (Num x, PosInf) \<Rightarrow> PosInf
      | (Num x, NegInf) \<Rightarrow> NegInf
      | (PosInf, Num y) \<Rightarrow> PosInf
      | (PosInf, PosInf) \<Rightarrow> PosInf
      | (NegInf, Num y) \<Rightarrow> NegInf
      | (NegInf, NegInf) \<Rightarrow> NegInf
      | _ \<Rightarrow> NaN)"

section \<open>Records of the client\<close>

type_synonym KairosMultiTags = "string \<rightharpoonup> string list"

type_synonym KairosTags = "string \<rightharpoonup> string"

record KairosSampling =
  sampling_value :: string
  sampling_unit :: string

record KairosAggregator =
  aggregator_name :: string
  align_sampling :: bool
  sampling :: KairosSampling

datatype KairosGrouperType = tag

record KairosGrouper =
  grouper_name :: KairosGrouperType
  grouper_tags :: "string list"

record KairosRequestMetric =
  metric_name :: "string option"
  metric_tags :: "KairosMultiTags option"
  group_by :: "KairosGrouper list option"
  aggregators :: "KairosAggregator list option"

record KairosRequest =
  cache_time :: "int option"
  start_absolute :: "int option"
  end_absolute :: "int option"
  time_zone :: "string option"
  metrics :: "KairosRequestMetric list option"

text \<open>A point: the first component is the date, the second the value.\<close>

type_synonym KairosItem = "number \<times> number"

record KairosResult =
  result_name :: string
  result_tags :: KairosMultiTags
  result_values :: "KairosItem list"

record KairosQueryResponse =
  sample_size :: "int option"
  results :: "KairosResult list"

record KairosResponse =
  queries :: "KairosQueryResponse list"
  errors :: "string list option"

record KairosIncoming =
  incoming_name :: "string option"
  incoming_tags :: "KairosTags option"
  datapoints :: "KairosItem list option"

record TimeIntervalCountingSettings =
  interval :: int
  deadInterval :: int

section \<open>checkKairosItemsEqual\<close>

text \<open>
  The \<open>for\<close> loop of \<open>checkKairosItemsEqual\<close>, from index \<open>i\<close> on. It is entered only
  when both arrays have the same length, so \<open>right ! i\<close> is in range whenever
  \<open>left ! i\<close> is.
\<close>

function checkKairosItemsEqual_loop :: "KairosItem list \<Rightarrow> KairosItem list \<Rightarrow> nat \<Rightarrow> bool" where
  "checkKairosItemsEqual_loop left right i =
     (if i < length left then
        (if strict_neq (fst (left ! i)) (fst (right ! i)) then False
         else if strict_neq (snd (left ! i)) (snd (right ! i)) then False
         else checkKairosItemsEqual_loop left right (i + 1))
      else True)"
  by pat_completeness auto
termination
  by (relation "measure (\<lambda>(left, right, i). length left - i)") auto

declare checkKairosItemsEqual_loop.simps [simp del]

definition checkKairosItemsEqual :: "KairosItem list \<Rightarrow> KairosItem list \<Rightarrow> bool" where
  "checkKairosItemsEqual left right =
     (if length left \<noteq> length right then False
      else checkKairosItemsEqual_loop left right 0)"

section \<open>The HTTP collaborator\<close>

text \<open>
  Every way in which a call of the client can fail: \<open>throw new Error(message)\<close>, the
  \<open>throw\<close> of a bare string in \<open>read\<close>, the runtime's \<open>TypeError\<close> raised by reading a
  property of \<open>undefined\<close>, and the rejection of \<open>fetch\<close> or of \<open>response.json()\<close>.
\<close>

datatype error =
    Error string
  | Thrown string
  | TypeError
  | FetchError

datatype payload =
    RequestBody KairosRequest
  | IncomingBody "KairosIncoming list"

record RequestInit =
  init_method :: string
  init_headers :: "(string \<times> string) list"
  init_body :: "payload option"
  init_compress :: "bool option"

text \<open>One call of \<open>fetch\<close>: the URL and the request.\<close>

type_synonym fetch_call = "string \<times> RequestInit"

text \<open>
  What the client reads off a response: the status, the body as text, and the body
  decoded by \<open>response.json()\<close> (\<open>None\<close> when the body is not JSON).
\<close>

record Response =
  response_status :: int
  response_text :: string
  response_json :: "KairosResponse option"

text \<open>
  The server is any function of the calls made so far and the present call; \<open>None\<close> is
  a transport failure. The calls made so far are kept as a log, so that the effect of a
  client operation is its result together with the extended log.
\<close>

type_synonym network = "fetch_call list \<Rightarrow> fetch_call \<Rightarrow> Response option"

definition fetch :: "network \<Rightarrow> string \<Rightarrow> RequestInit \<Rightarrow> fetch_call list
    \<Rightarrow> (error + Response) \<times> fetch_call list" where
  "fetch net u init calls =
     ((case net calls (u, init) of None \<Rightarrow> Inl FetchError | Some response \<Rightarrow> Inr response),
      calls @ [(u, init)])"

definition json :: "Response \<Rightarrow> error + KairosResponse" where
  "json response = (case response_json response of None \<Rightarrow> Inl FetchError | Some obj \<Rightarrow> Inr obj)"

section \<open>ReadOnlyKairosDB\<close>

definition allYears :: nat where
  "allYears = 999999"

definition digit_char :: "nat \<Rightarrow> char" where
  "digit_char d = ''0123456789'' ! d"

text \<open>The decimal text of a number, as \<open>'' + n\<close> gives it.\<close>

fun string_of_nat :: "nat \<Rightarrow> string" where
  "string_of_nat n =
     (if n < 10 then [digit_char n] else string_of_nat (n div 10) @ [digit_char (n mod 10)])"

declare string_of_nat.simps [simp del]

definition apiUrl :: "string \<Rightarrow> string" where
  "apiUrl url = url @ ''/api/v1''"

definition queryUrl :: "string \<Rightarrow> string" where
  "queryUrl url = apiUrl url @ ''/datapoints/query''"

definition getPostJsonRequest :: "payload \<Rightarrow> RequestInit" where
  "getPostJsonRequest requestObject =
     \<lparr>init_method = ''POST'',
      init_headers = [(''Content-Type'', ''application/json'')],
      init_body = Some requestObject,
      init_compress = Some True\<rparr>"

text \<open>
  \<open>xs[0]\<close> followed by a property read: on an empty array \<open>xs[0]\<close> is \<open>undefined\<close> and
  the read raises \<open>TypeError\<close>.
\<close>

definition first_of :: "'a list \<Rightarrow> error + 'a" where
  "first_of xs = (case xs of [] \<Rightarrow> Inl TypeError | x # _ \<Rightarrow> Inr x)"

definition getMetricTags :: "network \<Rightarrow> string \<Rightarrow> string \<Rightarrow> fetch_call list
    \<Rightarrow> (error + KairosMultiTags) \<times> fetch_call list" where
  "getMetricTags net url metricName calls =
     (let request =
            \<lparr>cache_time = Some 0, start_absolute = Some 0, end_absolute = None, time_zone = None,
             metrics = Some [\<lparr>metric_name = Some metricName, metric_tags = Some Map.empty,
                              group_by = None, aggregators = None\<rparr>]\<rparr>
      in case fetch net (queryUrl url @ ''/tags'') (getPostJsonRequest (RequestBody request)) calls of
           (Inl e, calls') \<Rightarrow> (Inl e, calls')
         | (Inr response, calls') \<Rightarrow>
             (case json response of
                Inl e \<Rightarrow> (Inl e, calls')
              | Inr responseObject \<Rightarrow>
                  (case first_of (queries responseObject) of
                     Inl e \<Rightarrow> (Inl e, calls')
                   | Inr query \<Rightarrow>
                       (case first_of (results query) of
                          Inl e \<Rightarrow> (Inl e, calls')
                        | Inr result \<Rightarrow> (Inr (result_tags result), calls')))))"

text \<open>\<open>Array.prototype.join\<close> on an array of strings.\<close>

fun join :: "string \<Rightarrow> string list \<Rightarrow> string" where
  "join sep [] = []"
| "join sep [x] = x"
| "join sep (x # y # ys) = x @ sep @ join sep (y # ys)"

text \<open>
  \<open>if (obj.errors)\<close> tests the property for truthiness: \<open>undefined\<close> is falsy and every
  array is truthy, the empty one too.
\<close>

definition read :: "network \<Rightarrow> string \<Rightarrow> KairosRequest \<Rightarrow> fetch_call list
    \<Rightarrow> (error + KairosResponse) \<times> fetch_call list" where
  "read net url requestObject calls =
     (let request = getPostJsonRequest (RequestBody requestObject);
          url' = apiUrl url @ ''/datapoints/query''
      in case fetch net url' request calls of
           (Inl e, calls') \<Rightarrow> (Inl e, calls')
         | (Inr response, calls') \<Rightarrow>
             (case json response of
                Inl e \<Rightarrow> (Inl e, calls')
              | Inr obj \<Rightarrow>
                  (case errors obj of
                     Some es \<Rightarrow> (Inl (Thrown (join [CHR 0x0A] es)), calls')
                   | None \<Rightarrow> (Inr obj, calls'))))"

definition createSimpleRequest :: "string \<Rightarrow> KairosMultiTags option \<Rightarrow> KairosRequest" where
  "createSimpleRequest metricName tags =
     (let metric = \<lparr>metric_name = None, metric_tags = None, group_by = None, aggregators = None\<rparr>;
          metric = metric\<lparr>metric_name := Some metricName\<rparr>;
          metric = (if tags \<noteq> None then metric\<lparr>metric_tags := tags\<rparr> else metric);
          request = \<lparr>cache_time = Some 0, start_absolute = Some 0, end_absolute = None,
                     time_zone = None, metrics = None\<rparr>;
          request = request\<lparr>cache_time := Some 0\<rparr>;
          request = request\<lparr>start_absolute := Some 1\<rparr>;
          request = request\<lparr>metrics := Some [metric]\<rparr>
      in request)"

text \<open>The aggregator literal of \<open>readCount\<close> and \<open>readCountLong\<close>.\<close>

definition count_aggregator :: KairosAggregator where
  "count_aggregator =
     \<lparr>aggregator_name = ''count'',
      align_sampling = True,
      sampling = \<lparr>sampling_value = [] @ string_of_nat allYears, sampling_unit = ''years''\<rparr>\<rparr>"

text \<open>Truthiness of a number that may be missing: \<open>undefined\<close> and \<open>0\<close> are falsy.\<close>

definition truthy :: "int option \<Rightarrow> bool" where
  "truthy n = (case n of None \<Rightarrow> False | Some k \<Rightarrow> k \<noteq> 0)"

text \<open>
  The expression
  \<open>output.queries[0].sample_size ? output.queries[0].results[0].values[0][1] : 0\<close>
  of \<open>readCount\<close> and \<open>readCountLong\<close>.
\<close>

definition count_of :: "KairosResponse \<Rightarrow> error + number" where
  "count_of output =
     (case first_of (queries output) of
        Inl e \<Rightarrow> Inl e
      | Inr query \<Rightarrow>
          (if truthy (sample_size query) then
             (case first_of (results query) of
                Inl e \<Rightarrow> Inl e
              | Inr result \<Rightarrow>
                  (case first_of (result_values result) of
                     Inl e \<Rightarrow> Inl e
                   | Inr item \<Rightarrow> Inr (snd item)))
           else Inr (Num 0)))"

text \<open>
  \<open>readCount\<close> writes to the metrics of the request object it is given, so the model
  returns that object as the call leaves it, next to the result and the log.
  \<open>request.metrics.forEach\<close> on a request without metrics raises \<open>TypeError\<close>.
\<close>

definition readCount :: "network \<Rightarrow> string \<Rightarrow> KairosRequest \<Rightarrow> fetch_call list
    \<Rightarrow> (error + number) \<times> KairosRequest \<times> fetch_call list" where
  "readCount net url request calls =
     (case metrics request of
        None \<Rightarrow> (Inl TypeError, request, calls)
      | Some ms \<Rightarrow>
          (let request = request\<lparr>metrics :=
                 Some (map (\<lambda>m. m\<lparr>aggregators := Some [count_aggregator]\<rparr>) ms)\<rparr>
           in case read net url request calls of
                (Inl e, calls') \<Rightarrow> (Inl e, request, calls')
              | (Inr output, calls') \<Rightarrow> (count_of output, request, calls')))"

text \<open>\<open>request.start_absolute < 0\<close>: a comparison with \<open>undefined\<close> is false.\<close>

definition negative :: "int option \<Rightarrow> bool" where
  "negative n = (case n of None \<Rightarrow> False | Some k \<Rightarrow> k < 0)"

text \<open>
  The \<open>while\<close> loop of \<open>readCountLong\<close>. Nothing in the loop bounds the number of its
  iterations for an arbitrary interval, so it is a partial function: \<open>None\<close> is a run
  that never returns. A failing \<open>read\<close>, or a fault in reading the count, leaves the
  loop with that error.
\<close>

partial_function (option) readCountLong_loop ::
    "network \<Rightarrow> string \<Rightarrow> TimeIntervalCountingSettings \<Rightarrow> KairosRequest \<Rightarrow> int \<Rightarrow> int \<Rightarrow> number
      \<Rightarrow> fetch_call list \<Rightarrow> ((error + number) \<times> fetch_call list) option" where
  "readCountLong_loop net url settings request currentTime nonZeroTime totalCount calls =
     (if 0 < currentTime \<and> \<bar>currentTime - nonZeroTime\<bar> \<le> deadInterval settings then
        (let request = request\<lparr>end_absolute := Some currentTime\<rparr>;
             request = request\<lparr>start_absolute := Some (currentTime - interval settings + 1)\<rparr>;
             request = (if negative (start_absolute request)
                        then request\<lparr>start_absolute := Some 0\<rparr> else request)
         in case read net url request calls of
              (Inl e, calls') \<Rightarrow> Some (Inl e, calls')
            | (Inr output, calls') \<Rightarrow>
                (case count_of output of
                   Inl e \<Rightarrow> Some (Inl e, calls')
                 | Inr currentCount \<Rightarrow>
                     readCountLong_loop net url settings request
                       (currentTime - interval settings)
                       (if js_gt currentCount (Num 0) then currentTime else nonZeroTime)
                       (js_add totalCount currentCount)
                       calls'))
      else Some (Inr totalCount, calls))"

text \<open>
  \<open>readCountLong\<close>; \<open>now\<close> is the value of \<open>new Date().getTime()\<close>.
  \<open>request.metrics[0].aggregators = ...\<close> raises \<open>TypeError\<close> on a request without a
  first metric.
\<close>

definition readCountLong :: "network \<Rightarrow> string \<Rightarrow> int \<Rightarrow> string \<Rightarrow> KairosMultiTags option
    \<Rightarrow> TimeIntervalCountingSettings \<Rightarrow> fetch_call list
    \<Rightarrow> ((error + number) \<times> fetch_call list) option" where
  "readCountLong net url now metricName tags settings calls =
     (if \<not> (interval settings > 1) then
        Some (Inl (Error ''settings.interval must be greater than 1''), calls)
      else
        (let request = createSimpleRequest metricName tags
         in case metrics request of
              Some (m # ms) \<Rightarrow>
                (let request = request\<lparr>metrics :=
                       Some (m\<lparr>aggregators := Some [count_aggregator]\<rparr> # ms)\<rparr>;
                     currentTime = now;
                     nonZeroTime = currentTime;
                     totalCount = Num 0
                 in readCountLong_loop net url settings request currentTime nonZeroTime
                      totalCount calls)
            | _ \<Rightarrow> Some (Inl TypeError, calls)))"

section \<open>KairosDB\<close>

text \<open>
  The mutating operations. \<open>encodeURIComponent\<close> is a built-in of the language and is
  taken as a parameter.
\<close>

definition deleteMetric :: "network \<Rightarrow> (string \<Rightarrow> string) \<Rightarrow> string \<Rightarrow> string
    \<Rightarrow> fetch_call list \<Rightarrow> (error + Response) \<times> fetch_call list" where
  "deleteMetric net encodeURIComponent url metricName calls =
     (case fetch net (apiUrl url @ ''/metric/'' @ encodeURIComponent metricName)
             \<lparr>init_method = ''DELETE'', init_headers = [], init_body = None,
              init_compress = None\<rparr> calls of
        (Inl e, calls') \<Rightarrow> (Inl e, calls')
      | (Inr response, calls') \<Rightarrow>
          (if response_status response \<noteq> 204 then (Inl (Error (response_text response)), calls')
           else (Inr response, calls')))"

text \<open>The method \<open>write\<close> (the name is reserved in Isabelle).\<close>

definition write_items :: "network \<Rightarrow> string \<Rightarrow> KairosIncoming list \<Rightarrow> fetch_call list
    \<Rightarrow> (error + unit) \<times> fetch_call list" where
  "write_items net url items calls =
     (case fetch net (apiUrl url @ ''/datapoints'') (getPostJsonRequest (IncomingBody items)) calls of
        (Inl e, calls') \<Rightarrow> (Inl e, calls')
      | (Inr response, calls') \<Rightarrow>
          (if response_status response \<noteq> 204 then (Inl (Error (response_text response)), calls')
           else (Inr (), calls')))"

definition delete :: "network \<Rightarrow> string \<Rightarrow> KairosRequest \<Rightarrow> fetch_call list
    \<Rightarrow> (error + Response) \<times> fetch_call list" where
  "delete net url request calls =
     (case fetch net (apiUrl url @ ''/datapoints/delete'') (getPostJsonRequest (RequestBody request)) calls of
        (Inl e, calls') \<Rightarrow> (Inl e, calls')
      | (Inr response, calls') \<Rightarrow>
          (if response_status response \<noteq> 204 then (Inl (Error (response_text response)), calls')
           else (Inr response, calls')))"

section \<open>Concrete servers and requests\<close>

text \<open>A server that never answers.\<close>

definition no_server :: network where
  "no_server calls call = None"

text \<open>A server that gives the same response to every call.\<close>

definition constant_server :: "Response \<Rightarrow> network" where
  "constant_server response calls call = Some response"

text \<open>A response with the given status and text, whose body decodes to the given object.\<close>

definition response_with :: "int \<Rightarrow> string \<Rightarrow> KairosResponse \<Rightarrow> Response" where
  "response_with status body obj =
     \<lparr>response_status = status, response_text = body, response_json = Some obj\<rparr>"

text \<open>The decoded body \<open>{queries: []}\<close>.\<close>

definition no_queries :: KairosResponse where
  "no_queries = \<lparr>queries = [], errors = None\<rparr>"

text \<open>The decoded body \<open>{queries: [{sample_size: 0, results: []}]}\<close>.\<close>

definition no_results :: KairosResponse where
  "no_results = \<lparr>queries = [\<lparr>sample_size = Some 0, results = []\<rparr>], errors = None\<rparr>"

text \<open>The decoded body \<open>{queries: [], errors: []}\<close>.\<close>

definition empty_errors :: KairosResponse where
  "empty_errors = \<lparr>queries = [], errors = Some []\<rparr>"

text \<open>
  The decoded body of a count query that found \<open>c\<close> points in a sample of \<open>n\<close>:
  \<open>{queries: [{sample_size: n, results: [{name: "m", tags: {}, values: [[0, c]]}]}]}\<close>.
\<close>

definition counted :: "int \<Rightarrow> number \<Rightarrow> KairosResponse" where
  "counted n c =
     \<lparr>queries = [\<lparr>sample_size = Some n,
                   results = [\<lparr>result_name = ''m'', result_tags = Map.empty,
                               result_values = [(Num 0, c)]\<rparr>]\<rparr>],
      errors = None\<rparr>"

text \<open>The decoded body of a count query that matched no point.\<close>

definition nothing_counted :: KairosResponse where
  "nothing_counted =
     \<lparr>queries = [\<lparr>sample_size = Some 0,
                   results = [\<lparr>result_name = ''m'', result_tags = Map.empty,
                               result_values = []\<rparr>]\<rparr>],
      errors = None\<rparr>"

text \<open>A request for the metric \<open>m\<close> that carries no aggregator yet.\<close>

definition plain_request :: KairosRequest where
  "plain_request = createSimpleRequest ''m'' None"

text \<open>
  A server for count queries that reports \<open>c0\<close> points in the window that ends at \<open>t0\<close>,
  \<open>c1\<close> points in the window that ends at \<open>t1\<close>, and no point in any other window.
\<close>

definition two_window_server :: "int \<Rightarrow> number \<Rightarrow> int \<Rightarrow> number \<Rightarrow> network" where
  "two_window_server t0 c0 t1 c1 calls call =
     (case init_body (snd call) of
        Some (RequestBody request) \<Rightarrow>
          Some (response_with 200 []
            (if end_absolute request = Some t0 then counted 1 c0
             else if end_absolute request = Some t1 then counted 1 c1
             else nothing_counted))
      | _ \<Rightarrow> None)"

section \<open>The windows of readCountLong\<close>

text \<open>
  The request that \<open>readCountLong\<close> has built when it enters the loop.
\<close>

definition counting_request :: "string \<Rightarrow> KairosMultiTags option \<Rightarrow> KairosRequest" where
  "counting_request metricName tags =
     \<lparr>cache_time = Some 0, start_absolute = Some 1, end_absolute = None, time_zone = None,
      metrics = Some [\<lparr>metric_name = Some metricName, metric_tags = tags, group_by = None,
                       aggregators = Some [count_aggregator]\<rparr>]\<rparr>"

text \<open>
  The request for the window that ends at \<open>t\<close>, in the words of the specification: it
  ends at \<open>t\<close> and starts at \<open>max(0, t - interval + 1)\<close>.
\<close>

definition window :: "TimeIntervalCountingSettings \<Rightarrow> KairosRequest \<Rightarrow> int \<Rightarrow> KairosRequest" where
  "window settings request t =
     request\<lparr>end_absolute := Some t, start_absolute := Some (max 0 (t - interval settings + 1))\<rparr>"

text \<open>The call of \<open>fetch\<close> by which \<open>read\<close> sends a request.\<close>

definition query_call :: "string \<Rightarrow> KairosRequest \<Rightarrow> fetch_call" where
  "query_call url request =
     (apiUrl url @ ''/datapoints/query'', getPostJsonRequest (RequestBody request))"

text \<open>
  The calls for \<open>n\<close> successive windows, the first ending at \<open>t\<close> and each next one
  \<open>interval\<close> earlier.
\<close>

definition window_calls :: "string \<Rightarrow> TimeIntervalCountingSettings \<Rightarrow> KairosRequest \<Rightarrow> int \<Rightarrow> nat
    \<Rightarrow> fetch_call list" where
  "window_calls url settings request t n =
     map (\<lambda>k. query_call url (window settings request (t - int k * interval settings))) [0..<n]"

text \<open>
  The count that the server reports for a request, after the calls in the log: what
  \<open>read\<close> and the count expression give.
\<close>

definition window_count :: "network \<Rightarrow> string \<Rightarrow> KairosRequest \<Rightarrow> fetch_call list
    \<Rightarrow> error + number" where
  "window_count net url request calls =
     (case fst (read net url request calls) of Inl e \<Rightarrow> Inl e | Inr output \<Rightarrow> count_of output)"

section \<open>Properties of the numbers\<close>

lemma round_half_even_of_int: "round_half_even (of_int z) = z"
  by (simp add: round_half_even_def)

lemma round_half_even_tie: "round_half_even (of_int z + 1 / 2) = (if even z then z else z + 1)"
proof -
  have "\<lfloor>of_int z + 1 / 2 :: rat\<rfloor> = z"
    by (rule floor_unique) simp_all
  then show ?thesis
    by (simp add: round_half_even_def Let_def)
qed

lemma round_half_even_le: "x \<le> of_int z \<Longrightarrow> round_half_even x \<le> z"
  unfolding round_half_even_def Let_def
  by (auto simp: floor_le_iff le_floor_iff)

lemma round_half_even_nonneg: "0 \<le> x \<Longrightarrow> 0 \<le> round_half_even x"
  unfolding round_half_even_def Let_def by auto

lemma min_ulp_pos: "0 < min_ulp"
  unfolding min_ulp_def by (rule divide_pos_pos) simp_all

lemma significand_bound_int: "significand_bound = of_int (2 ^ 53)"
  by (simp add: significand_bound_def)

lemma min_ulp_unit: "min_ulp * 2 ^ 1074 = 1"
  unfolding min_ulp_def by (simp only: times_divide_eq_left mult_1 divide_self_if) simp

lemma overflow_bound_split: "significand_bound * (min_ulp * 2 ^ 2045) = overflow_bound"
proof -
  have "(2::rat) ^ 2045 = 2 ^ 1074 * 2 ^ 971"
    by (simp only: power_add [symmetric]) simp
  then have "min_ulp * 2 ^ 2045 = (min_ulp * 2 ^ 1074) * 2 ^ 971"
    by (simp only: mult.assoc)
  then have "min_ulp * 2 ^ 2045 = 2 ^ 971"
    by (simp only: min_ulp_unit mult_1)
  moreover have "(2::rat) ^ 53 * 2 ^ 971 = 2 ^ 1024"
    by (simp only: power_add [symmetric]) simp
  ultimately show ?thesis
    by (simp only: significand_bound_def overflow_bound_def)
qed

lemma significand_below_overflow: "significand_bound < overflow_bound"
  unfolding significand_bound_def overflow_bound_def
  by (rule power_strict_increasing) simp_all


lemma ulp_from_chain: "\<exists>i\<le>n. ulp_from n a q = q * 2 ^ i"
proof (induction n arbitrary: q)
  case 0
  show ?case by simp
next
  case (Suc n)
  show ?case
  proof (cases "a \<le> significand_bound * q")
    case True
    then have "ulp_from (Suc n) a q = q * 2 ^ 0" by simp
    then show ?thesis by blast
  next
    case False
    from Suc [of "2 * q"] obtain i where "i \<le> n" "ulp_from n a (2 * q) = 2 * q * 2 ^ i"
      by blast
    with False have "Suc i \<le> Suc n \<and> ulp_from (Suc n) a q = q * 2 ^ Suc i"
      by simp
    then show ?thesis by blast
  qed
qed

lemma ulp_from_below:
  "a \<le> significand_bound * (q * 2 ^ i) \<Longrightarrow> i \<le> n \<Longrightarrow> \<exists>j\<le>i. ulp_from n a q = q * 2 ^ j"
proof (induction n arbitrary: q i)
  case 0
  then show ?case by simp
next
  case (Suc n)
  show ?case
  proof (cases "a \<le> significand_bound * q")
    case True
    then have "ulp_from (Suc n) a q = q * 2 ^ 0" by simp
    then show ?thesis by blast
  next
    case False
    with Suc.prems(1) obtain i' where i: "i = Suc i'"
      by (cases i) auto
    with Suc.prems have "a \<le> significand_bound * (2 * q * 2 ^ i')" "i' \<le> n"
      by (simp_all add: mult.assoc)
    from Suc.IH [OF this] obtain j where "j \<le> i'" "ulp_from n a (2 * q) = 2 * q * 2 ^ j"
      by blast
    with False i have "Suc j \<le> i \<and> ulp_from (Suc n) a q = q * 2 ^ Suc j"
      by simp
    then show ?thesis by blast
  qed
qed

lemma ulp_from_covers:
  "a \<le> significand_bound * ulp_from n a q \<or> ulp_from n a q = q * 2 ^ n"
proof (induction n arbitrary: q)
  case 0
  show ?case by simp
next
  case (Suc n)
  from Suc [of "2 * q"] show ?case
    by auto
qed

lemma ulp_chain: "\<exists>i\<le>2045. ulp a = min_ulp * 2 ^ i"
  unfolding ulp_def by (rule ulp_from_chain)

lemma ulp_below:
  "a \<le> significand_bound * (min_ulp * 2 ^ i) \<Longrightarrow> i \<le> 2045 \<Longrightarrow> \<exists>j\<le>i. ulp a = min_ulp * 2 ^ j"
  unfolding ulp_def by (rule ulp_from_below)

lemma ulp_covers: "a \<le> significand_bound * ulp a \<or> ulp a = min_ulp * 2 ^ 2045"
  unfolding ulp_def by (rule ulp_from_covers)

lemma ulp_pos: "0 < ulp a"
proof -
  from ulp_chain obtain i where "ulp a = min_ulp * 2 ^ i"
    by blast
  with min_ulp_pos show ?thesis by simp
qed

text \<open>A multiple of a spacing of the grid, with a significand of at most 53 bits, is a double.\<close>

lemma round_double_grid:
  assumes m: "0 \<le> m" "of_int m \<le> significand_bound"
    and i: "i \<le> 2045"
    and a: "a = of_int m * (min_ulp * 2 ^ i)"
    and fin: "a < overflow_bound"
  shows "round_double a = Num a" and "round_double (- a) = Num (- a)"
proof -
  let ?q = "min_ulp * 2 ^ i"
  have q0: "0 < ?q"
    using min_ulp_pos by simp
  from m(1) q0 have a0: "0 \<le> a"
    by (simp add: a)
  from m(2) q0 have "of_int m * ?q \<le> significand_bound * ?q"
    by (intro mult_right_mono) simp_all
  with a have "a \<le> significand_bound * ?q"
    by simp
  from ulp_below [OF this i] obtain j where j: "j \<le> i" and u: "ulp a = min_ulp * 2 ^ j"
    by blast
  from j have "(2::rat) ^ i = 2 ^ j * 2 ^ (i - j)"
    by (simp add: power_add [symmetric])
  then have "of_int m * (min_ulp * 2 ^ i) = of_int m * 2 ^ (i - j) * (min_ulp * 2 ^ j)"
    by (simp add: mult_ac)
  also have "of_int m * 2 ^ (i - j) = (of_int (m * 2 ^ (i - j)) :: rat)"
    by simp
  finally have n: "a = of_int (m * 2 ^ (i - j)) * ulp a"
    by (simp only: a [symmetric] u [symmetric])
  with ulp_pos [of a] have "a / ulp a = of_int (m * 2 ^ (i - j))"
    by (simp add: divide_eq_eq)
  then have "of_int (round_half_even (a / ulp a)) * ulp a = of_int (m * 2 ^ (i - j)) * ulp a"
    by (simp only: round_half_even_of_int)
  with n have r: "of_int (round_half_even (a / ulp a)) * ulp a = a"
    by simp
  from a0 have abs: "\<bar>a\<bar> = a" "\<bar>- a\<bar> = a"
    by simp_all
  from fin have nf: "\<not> overflow_bound \<le> a"
    by simp
  from a0 have nn: "\<not> a < 0"
    by simp
  show pos: "round_double a = Num a"
    by (simp only: round_double_def Let_def abs r nf nn if_False)
  show "round_double (- a) = Num (- a)"
  proof (cases "a = 0")
    case True
    with pos show ?thesis by simp
  next
    case False
    with a0 have "- a < 0"
      by simp
    then show ?thesis
      by (simp only: round_double_def Let_def abs r nf if_False if_True)
  qed
qed


lemma round_double_integer:
  assumes "x \<in> \<int>" and "\<bar>x\<bar> \<le> 2 ^ 53"
  shows "round_double x = Num x"
proof -
  from assms(1) obtain z where z: "x = of_int z"
    by (auto elim: Ints_cases)
  from assms(2) z have b: "(of_int \<bar>z\<bar> :: rat) \<le> significand_bound"
    by (simp add: significand_bound_def)
  with significand_below_overflow have fin: "(of_int \<bar>z\<bar> :: rat) < overflow_bound"
    by linarith
  have g: "(of_int \<bar>z\<bar> :: rat) = of_int \<bar>z\<bar> * (min_ulp * 2 ^ 1074)"
    by (simp only: min_ulp_unit mult_1_right)
  have "(1074::nat) \<le> 2045"
    by simp
  note grid = round_double_grid [of "\<bar>z\<bar>" 1074 "of_int \<bar>z\<bar>", OF _ b this g fin]
  show ?thesis
  proof (cases "0 \<le> z")
    case True
    with grid(1) z show ?thesis by simp
  next
    case False
    with grid(2) z show ?thesis by simp
  qed
qed

lemma round_double_idem:
  assumes "round_double x = Num r"
  shows "round_double r = Num r"
proof -
  let ?a = "\<bar>x\<bar>"
  let ?m = "round_half_even (?a / ulp ?a)"
  let ?r = "of_int ?m * ulp ?a"
  from assms have fin: "?r < overflow_bound" and r: "r = (if x < 0 then - ?r else ?r)"
    by (auto simp add: round_double_def Let_def split: if_splits)
  from ulp_chain obtain i where i: "i \<le> 2045" and u: "ulp ?a = min_ulp * 2 ^ i"
    by blast
  have m0: "0 \<le> ?m"
    using ulp_pos [of ?a] by (intro round_half_even_nonneg) simp
  have m53: "(of_int ?m :: rat) \<le> significand_bound"
  proof (cases "?a \<le> significand_bound * ulp ?a")
    case True
    with ulp_pos [of ?a] have "?a / ulp ?a \<le> of_int (2 ^ 53)"
      by (simp add: pos_divide_le_eq significand_bound_int)
    then have "?m \<le> 2 ^ 53"
      by (rule round_half_even_le)
    then have "(of_int ?m :: rat) \<le> of_int (2 ^ 53)"
      by (simp only: of_int_le_iff)
    then show ?thesis
      by (simp only: significand_bound_int)
  next
    case False
    with ulp_covers [of ?a] have "ulp ?a = min_ulp * 2 ^ 2045"
      by blast
    with overflow_bound_split have "overflow_bound = significand_bound * ulp ?a"
      by simp
    with fin have "of_int ?m * ulp ?a < significand_bound * ulp ?a"
      by simp
    with ulp_pos [of ?a] have "(of_int ?m :: rat) < significand_bound"
      by (simp only: mult_less_cancel_right_pos)
    then show ?thesis
      by simp
  qed
  have g: "?r = of_int ?m * (min_ulp * 2 ^ i)"
    by (simp only: u)
  note grid = round_double_grid [OF m0 m53 i g fin]
  show ?thesis
  proof (cases "x < 0")
    case True
    with r grid(2) show ?thesis by simp
  next
    case False
    with r grid(1) show ?thesis by simp
  qed
qed

lemma js_add_zero: "js_add (js_add a b) (Num 0) = js_add a b"
proof (cases "js_add a b")
  case (Num r)
  then have "round_double r = Num r"
    by (auto simp add: js_add_def split: number.splits intro: round_double_idem)
  with Num show ?thesis
    by (simp add: js_add_def)
qed (simp_all add: js_add_def)

lemma js_add_integers:
  "x \<in> \<int> \<Longrightarrow> y \<in> \<int> \<Longrightarrow> \<bar>x + y\<bar> \<le> 2 ^ 53 \<Longrightarrow> js_add (Num x) (Num y) = Num (x + y)"
  by (simp add: js_add_def round_double_integer)

lemma ulp_unique:
  assumes le: "a \<le> significand_bound * (min_ulp * 2 ^ Suc i)"
    and i: "Suc i \<le> 2045"
    and gt: "\<not> a \<le> significand_bound * (min_ulp * 2 ^ i)"
  shows "ulp a = min_ulp * 2 ^ Suc i"
proof -
  from ulp_below [OF le i] obtain j where j: "j \<le> Suc i" and u: "ulp a = min_ulp * 2 ^ j"
    by blast
  have "\<not> j \<le> i"
  proof
    assume "j \<le> i"
    then have "(2::rat) ^ j \<le> 2 ^ i"
      by (intro power_increasing) simp_all
    with min_ulp_pos have "min_ulp * 2 ^ j \<le> min_ulp * 2 ^ i"
      by simp
    moreover have "0 \<le> significand_bound"
      by (simp add: significand_bound_def)
    ultimately have c: "significand_bound * (min_ulp * 2 ^ j) \<le> significand_bound * (min_ulp * 2 ^ i)"
      by (rule mult_left_mono)
    from ulp_covers [of a] show False
    proof
      assume "a \<le> significand_bound * ulp a"
      with u c gt show False by simp
    next
      assume "ulp a = min_ulp * 2 ^ 2045"
      with u min_ulp_pos have "(2::rat) ^ j = 2 ^ 2045"
        by simp
      moreover have "(1::rat) < 2"
        by simp
      ultimately have "j = 2045"
        using power_inject_exp [of "2::rat" j 2045] by blast
      with \<open>j \<le> i\<close> i show False by simp
    qed
  qed
  with j have "j = Suc i" by simp
  with u show ?thesis by simp
qed

lemma round_double_beyond_safe: "round_double (2 ^ 53 + 1) = Num (2 ^ 53)"
proof -
  have two: "min_ulp * 2 ^ Suc 1074 = 2"
    using min_ulp_unit by (simp only: power_Suc2 mult.assoc [symmetric])
  have a1: "(2 ^ 53 + 1 :: rat) \<le> significand_bound * 2"
    by (simp add: significand_bound_def)
  have a2: "\<not> (2 ^ 53 + 1 :: rat) \<le> significand_bound * 1"
    by (simp add: significand_bound_def)
  have b1: "(2 ^ 53 + 1 :: rat) \<le> significand_bound * (min_ulp * 2 ^ Suc 1074)"
    using a1 by (simp only: two simp_thms)
  have b2: "\<not> (2 ^ 53 + 1 :: rat) \<le> significand_bound * (min_ulp * 2 ^ 1074)"
    using a2 by (simp only: min_ulp_unit not_False_eq_True)
  have "Suc 1074 \<le> 2045"
    by simp
  from ulp_unique [OF b1 this b2] have "ulp (2 ^ 53 + 1) = min_ulp * 2 ^ Suc 1074" .
  then have u: "ulp (2 ^ 53 + 1) = 2"
    by (simp only: two)
  have "((2 ^ 53 + 1) / 2 :: rat) = of_int (2 ^ 52) + 1 / 2"
    by simp
  then have "round_half_even ((2 ^ 53 + 1) / 2) = 2 ^ 52"
    by (simp only: round_half_even_tie) simp
  then have "of_int (round_half_even ((2 ^ 53 + 1) / 2)) * (2::rat) = 2 ^ 53"
    by simp
  moreover have "\<not> overflow_bound \<le> 2 ^ 53"
    using significand_below_overflow by (simp add: significand_bound_def)
  moreover have "\<bar>2 ^ 53 + 1 :: rat\<bar> = 2 ^ 53 + 1" "\<not> (2 ^ 53 + 1 :: rat) < 0"
    by simp_all
  ultimately show ?thesis
    by (simp only: round_double_def Let_def u if_False)
qed

text \<open>Beyond \<open>2^53\<close> the sum is rounded: \<open>9007199254740992 + 1\<close> is \<open>9007199254740992\<close>.\<close>

lemma js_add_beyond_safe: "js_add (Num 9007199254740992) (Num 1) = Num 9007199254740992"
proof -
  have "js_add (Num (2 ^ 53)) (Num 1) = Num (2 ^ 53)"
    by (simp only: js_add_def prod.case number.case round_double_beyond_safe)
  then show ?thesis
    by simp
qed

text \<open>
  Adding whole numbers one after the other is exact as long as every running total stays
  within \<open>2^53\<close> in magnitude.
\<close>

lemma foldl_js_add_whole:
  assumes "\<forall>k\<le>length zs. \<bar>acc + sum_list (take k zs)\<bar> \<le> 2 ^ 53"
  shows "foldl js_add (Num (of_int acc)) (map (\<lambda>z. Num (of_int z)) zs) =
    Num (of_int (acc + sum_list zs))"
  using assms
proof (induction zs arbitrary: acc)
  case Nil
  show ?case by simp
next
  case (Cons z zs)
  from Cons.prems have "Suc 0 \<le> length (z # zs) \<longrightarrow> \<bar>acc + sum_list (take (Suc 0) (z # zs))\<bar> \<le> 2 ^ 53"
    by blast
  then have "\<bar>acc + z\<bar> \<le> 2 ^ 53"
    by simp
  then have "rat_of_int \<bar>acc + z\<bar> \<le> rat_of_int (2 ^ 53)"
    by (simp only: of_int_le_iff)
  then have "\<bar>rat_of_int acc + rat_of_int z\<bar> \<le> 2 ^ 53"
    by simp
  then have first: "js_add (Num (of_int acc)) (Num (of_int z)) = Num (of_int (acc + z))"
    by (simp add: js_add_integers)
  have "\<forall>k\<le>length zs. \<bar>acc + z + sum_list (take k zs)\<bar> \<le> 2 ^ 53"
  proof (intro allI impI)
    fix k
    assume "k \<le> length zs"
    with Cons.prems have "\<bar>acc + sum_list (take (Suc k) (z # zs))\<bar> \<le> 2 ^ 53"
      by (metis Suc_le_mono length_Cons)
    then show "\<bar>acc + z + sum_list (take k zs)\<bar> \<le> 2 ^ 53"
      by (simp add: add.assoc)
  qed
  from Cons.IH [OF this] first show ?case
    by (simp add: add.assoc)
qed

section \<open>Properties of checkKairosItemsEqual\<close>

lemma strict_neq_iff: "\<not> strict_neq a b \<longleftrightarrow> a = b \<and> a \<noteq> NaN"
  by (auto simp add: strict_neq_def)

lemma checkKairosItemsEqual_loop_done:
  "\<not> i < length left \<Longrightarrow> checkKairosItemsEqual_loop left right i"
  by (subst checkKairosItemsEqual_loop.simps) simp

lemma checkKairosItemsEqual_loop_differ:
  "i < length left \<Longrightarrow>
   strict_neq (fst (left ! i)) (fst (right ! i)) \<or> strict_neq (snd (left ! i)) (snd (right ! i)) \<Longrightarrow>
   \<not> checkKairosItemsEqual_loop left right i"
  by (subst checkKairosItemsEqual_loop.simps) auto

lemma checkKairosItemsEqual_loop_next:
  "i < length left \<Longrightarrow>
   \<not> strict_neq (fst (left ! i)) (fst (right ! i)) \<Longrightarrow>
   \<not> strict_neq (snd (left ! i)) (snd (right ! i)) \<Longrightarrow>
   checkKairosItemsEqual_loop left right i = checkKairosItemsEqual_loop left right (i + 1)"
  by (subst checkKairosItemsEqual_loop.simps) simp

lemma checkKairosItemsEqual_loop_iff:
  "checkKairosItemsEqual_loop left right i \<longleftrightarrow>
     (\<forall>j. i \<le> j \<and> j < length left \<longrightarrow>
        \<not> strict_neq (fst (left ! j)) (fst (right ! j))
        \<and> \<not> strict_neq (snd (left ! j)) (snd (right ! j)))"
proof (induction left right i rule: checkKairosItemsEqual_loop.induct)
  case (1 left right i)
  let ?same = "\<lambda>j. \<not> strict_neq (fst (left ! j)) (fst (right ! j))
    \<and> \<not> strict_neq (snd (left ! j)) (snd (right ! j))"
  show ?case
  proof (cases "i < length left")
    case False
    then have "\<forall>j. i \<le> j \<and> j < length left \<longrightarrow> ?same j"
      by (meson le_less_trans)
    with checkKairosItemsEqual_loop_done [OF False] show ?thesis
      by blast
  next
    case True
    show ?thesis
    proof (cases "?same i")
      case False
      then have "strict_neq (fst (left ! i)) (fst (right ! i))
        \<or> strict_neq (snd (left ! i)) (snd (right ! i))"
        by blast
      from checkKairosItemsEqual_loop_differ [OF True this] True False show ?thesis
        by blast
    next
      case same: True
      then have fs: "\<not> strict_neq (fst (left ! i)) (fst (right ! i))"
        "\<not> strict_neq (snd (left ! i)) (snd (right ! i))"
        by simp_all
      have ih: "checkKairosItemsEqual_loop left right (i + 1) \<longleftrightarrow>
          (\<forall>j. i + 1 \<le> j \<and> j < length left \<longrightarrow> ?same j)"
        by (rule "1.IH" [OF True fs])
      have "(\<forall>j. i + 1 \<le> j \<and> j < length left \<longrightarrow> ?same j) \<longleftrightarrow>
          (\<forall>j. i \<le> j \<and> j < length left \<longrightarrow> ?same j)"
      proof (intro iffI allI impI)
        fix j
        assume a: "\<forall>j. i + 1 \<le> j \<and> j < length left \<longrightarrow> ?same j"
          and b: "i \<le> j \<and> j < length left"
        show "?same j"
        proof (cases "j = i")
          case True
          with same show ?thesis by simp
        next
          case False
          with b have "i + 1 \<le> j \<and> j < length left" by linarith
          with a show ?thesis by blast
        qed
      next
        fix j
        assume a: "\<forall>j. i \<le> j \<and> j < length left \<longrightarrow> ?same j"
          and b: "i + 1 \<le> j \<and> j < length left"
        from b have "i \<le> j \<and> j < length left" by linarith
        with a show "?same j" by blast
      qed
      with ih checkKairosItemsEqual_loop_next [OF True fs] show ?thesis
        by blast
    qed
  qed
qed

lemma checkKairosItemsEqual_positions:
  "checkKairosItemsEqual left right \<longleftrightarrow>
     length left = length right \<and>
     (\<forall>i<length left.
        \<not> strict_neq (fst (left ! i)) (fst (right ! i))
        \<and> \<not> strict_neq (snd (left ! i)) (snd (right ! i)))"
  by (simp add: checkKairosItemsEqual_def checkKairosItemsEqual_loop_iff)

lemma checkKairosItemsEqual_iff_eq:
  "checkKairosItemsEqual left right \<longleftrightarrow>
     left = right \<and> (\<forall>item\<in>set left. fst item \<noteq> NaN \<and> snd item \<noteq> NaN)"
proof
  assume "checkKairosItemsEqual left right"
  then have l: "length left = length right"
    and p: "\<forall>i<length left. left ! i = right ! i \<and> fst (left ! i) \<noteq> NaN \<and> snd (left ! i) \<noteq> NaN"
    by (auto simp add: checkKairosItemsEqual_positions strict_neq_iff prod_eq_iff)
  from l p have "left = right"
    by (simp add: list_eq_iff_nth_eq)
  moreover have "\<forall>item\<in>set left. fst item \<noteq> NaN \<and> snd item \<noteq> NaN"
  proof
    fix item
    assume "item \<in> set left"
    then obtain i where "i < length left" "left ! i = item"
      by (auto simp add: in_set_conv_nth)
    with p show "fst item \<noteq> NaN \<and> snd item \<noteq> NaN"
      by blast
  qed
  ultimately show "left = right \<and> (\<forall>item\<in>set left. fst item \<noteq> NaN \<and> snd item \<noteq> NaN)"
    by blast
next
  assume a: "left = right \<and> (\<forall>item\<in>set left. fst item \<noteq> NaN \<and> snd item \<noteq> NaN)"
  then have "\<forall>i<length left. fst (left ! i) \<noteq> NaN \<and> snd (left ! i) \<noteq> NaN"
    by simp
  with a show "checkKairosItemsEqual left right"
    by (simp add: checkKairosItemsEqual_positions strict_neq_iff)
qed

text \<open>
  C3, as the claim states it, fails: a sequence that holds NaN does not compare equal to
  itself, because \<open>NaN !== NaN\<close>.
\<close>

theorem checkKairosItemsEqual_NaN_counterexample:
  "\<not> checkKairosItemsEqual [(Num 0, NaN)] [(Num 0, NaN)]"
  by (simp add: checkKairosItemsEqual_iff_eq)

text \<open>
  C3, amended. \<open>checkKairosItemsEqual left right\<close> is false when the lengths differ or
  when at some position the timestamps or the values differ under \<open>!==\<close>, and true
  otherwise. It is true exactly when the two sequences are identical and hold no NaN; so
  a sequence without NaN equals itself, the empty sequence equals itself, and two
  different sequences with the same elements in another order are not equal. The
  function takes two values and gives a truth value; it has no other effect.
\<close>

theorem checkKairosItemsEqual_correct:
  "(checkKairosItemsEqual left right \<longleftrightarrow>
      length left = length right \<and>
      (\<forall>i<length left.
         \<not> strict_neq (fst (left ! i)) (fst (right ! i))
         \<and> \<not> strict_neq (snd (left ! i)) (snd (right ! i))))
   \<and> (checkKairosItemsEqual left right \<longleftrightarrow>
      left = right \<and> (\<forall>item\<in>set left. fst item \<noteq> NaN \<and> snd item \<noteq> NaN))
   \<and> checkKairosItemsEqual [] []
   \<and> (mset left = mset right \<and> left \<noteq> right \<longrightarrow> \<not> checkKairosItemsEqual left right)"
proof (intro conjI)
  show "checkKairosItemsEqual left right \<longleftrightarrow>
      length left = length right \<and>
      (\<forall>i<length left.
         \<not> strict_neq (fst (left ! i)) (fst (right ! i))
         \<and> \<not> strict_neq (snd (left ! i)) (snd (right ! i)))"
    by (rule checkKairosItemsEqual_positions)
  show "checkKairosItemsEqual left right \<longleftrightarrow>
      left = right \<and> (\<forall>item\<in>set left. fst item \<noteq> NaN \<and> snd item \<noteq> NaN)"
    by (rule checkKairosItemsEqual_iff_eq)
  show "checkKairosItemsEqual [] []"
    by (simp add: checkKairosItemsEqual_iff_eq)
  show "mset left = mset right \<and> left \<noteq> right \<longrightarrow> \<not> checkKairosItemsEqual left right"
    by (simp add: checkKairosItemsEqual_iff_eq)
qed

theorem checkKairosItemsEqual_correct_witness:
  "mset [(Num 1000, Num 5), (Num 2000, Num 6)] = mset [(Num 2000, Num 6), (Num 1000, Num 5)]
   \<and> [(Num 1000, Num 5), (Num 2000, Num 6)] \<noteq> [(Num 2000, Num 6), (Num 1000, Num 5)]
   \<and> \<not> checkKairosItemsEqual [(Num 1000, Num 5), (Num 2000, Num 6)]
        [(Num 2000, Num 6), (Num 1000, Num 5)]
   \<and> checkKairosItemsEqual [(Num 1000, Num 5), (Num 2000, Num 6)]
        [(Num 1000, Num 5), (Num 2000, Num 6)]"
proof -
  let ?a = "[(Num 1000, Num 5), (Num 2000, Num 6)] :: KairosItem list"
  let ?b = "[(Num 2000, Num 6), (Num 1000, Num 5)] :: KairosItem list"
  have h: "mset ?a = mset ?b \<and> ?a \<noteq> ?b"
    by simp
  have n: "?a = ?a \<and> (\<forall>item\<in>set ?a. fst item \<noteq> NaN \<and> snd item \<noteq> NaN)"
    by simp
  from checkKairosItemsEqual_correct [of ?a ?b] h have "\<not> checkKairosItemsEqual ?a ?b"
    by blast
  moreover from checkKairosItemsEqual_correct [of ?a ?a] n have "checkKairosItemsEqual ?a ?a"
    by blast
  ultimately show ?thesis
    using h by blast
qed

section \<open>Properties of the single-call operations\<close>

lemma string_of_allYears: "string_of_nat allYears = ''999999''"
  by (simp add: allYears_def string_of_nat.simps digit_char_def)

text \<open>
  C4. When the interval is not greater than 1 (so in particular when it is 1),
  \<open>readCountLong\<close> fails with the error for the invalid argument and the log of calls
  is as it was: no request has been made.
\<close>

theorem readCountLong_invalid_interval:
  "\<not> 1 < interval settings \<Longrightarrow>
   readCountLong net url now metricName tags settings calls =
     Some (Inl (Error ''settings.interval must be greater than 1''), calls)"
  by (simp add: readCountLong_def)

theorem readCountLong_invalid_interval_witness:
  "\<not> 1 < interval \<lparr>interval = 1, deadInterval = 1000\<rparr>
   \<and> readCountLong (constant_server (response_with 200 [] (counted 1 (Num 7)))) ''http://db'' 5000 ''m''
        None \<lparr>interval = 1, deadInterval = 1000\<rparr> [] =
      Some (Inl (Error ''settings.interval must be greater than 1''), [])"
  using readCountLong_invalid_interval [of "\<lparr>interval = 1, deadInterval = 1000\<rparr>"
      "constant_server (response_with 200 [] (counted 1 (Num 7)))" "''http://db''" 5000 "''m''" None "[]"]
  by simp

lemma read_answer:
  assumes "net calls (apiUrl url @ ''/datapoints/query'', getPostJsonRequest (RequestBody request)) = Some response"
    and "response_json response = Some obj"
  shows "read net url request calls =
    ((case errors obj of Some es \<Rightarrow> Inl (Thrown (join [CHR 0x0A] es)) | None \<Rightarrow> Inr obj),
     calls @ [(apiUrl url @ ''/datapoints/query'', getPostJsonRequest (RequestBody request))])"
  using assms by (simp add: read_def fetch_def json_def split: option.split)

lemma read_log:
  "snd (read net url request calls) =
     calls @ [(apiUrl url @ ''/datapoints/query'', getPostJsonRequest (RequestBody request))]"
  by (simp add: read_def fetch_def json_def Let_def split: option.split sum.split)

text \<open>
  C5. When \<open>read\<close> delivers a decoded response with a first query, \<open>readCount\<close> returns 0
  if the \<open>sample_size\<close> of that query is falsy (so on a response for zero matching
  points it returns 0 and does not throw), and otherwise it returns the second component
  of the first value of the first result.
\<close>

theorem readCount_value:
  assumes "metrics request = Some ms"
    and "read net url
           (request\<lparr>metrics := Some (map (\<lambda>m. m\<lparr>aggregators := Some [count_aggregator]\<rparr>) ms)\<rparr>)
           calls = (Inr output, calls')"
    and "queries output = query # rest"
  shows "(\<not> truthy (sample_size query) \<longrightarrow> fst (readCount net url request calls) = Inr (Num 0))
    \<and> (truthy (sample_size query) \<and> results query = result # rs
          \<and> result_values result = item # items
        \<longrightarrow> fst (readCount net url request calls) = Inr (snd item))"
  using assms by (simp add: readCount_def count_of_def first_of_def)

theorem readCount_value_witness:
  "fst (readCount (constant_server (response_with 200 [] nothing_counted)) ''http://db''
          plain_request []) = Inr (Num 0)
   \<and> fst (readCount (constant_server (response_with 200 [] (counted 3 (Num 42)))) ''http://db''
          plain_request []) = Inr (Num 42)"
proof -
  let ?agg = "\<lambda>m :: KairosRequestMetric. m\<lparr>aggregators := Some [count_aggregator]\<rparr>"
  let ?m = "\<lparr>metric_name = Some ''m'', metric_tags = None, group_by = None, aggregators = None\<rparr>"
  let ?call = "(apiUrl ''http://db'' @ ''/datapoints/query'',
      getPostJsonRequest (RequestBody (plain_request\<lparr>metrics := Some (map ?agg [?m])\<rparr>)))"
  have ms: "metrics plain_request = Some [?m]"
    by (simp add: plain_request_def createSimpleRequest_def)
  have r0: "read (constant_server (response_with 200 [] nothing_counted)) ''http://db''
      (plain_request\<lparr>metrics := Some (map ?agg [?m])\<rparr>) [] = (Inr nothing_counted, [?call])"
    by (subst read_answer [where response = "response_with 200 [] nothing_counted"
          and obj = nothing_counted])
      (simp_all add: constant_server_def response_with_def nothing_counted_def)
  have r1: "read (constant_server (response_with 200 [] (counted 3 (Num 42)))) ''http://db''
      (plain_request\<lparr>metrics := Some (map ?agg [?m])\<rparr>) [] = (Inr (counted 3 (Num 42)), [?call])"
    by (subst read_answer [where response = "response_with 200 [] (counted 3 (Num 42))"
          and obj = "counted 3 (Num 42)"])
      (simp_all add: constant_server_def response_with_def counted_def)
  have q0: "queries nothing_counted =
      \<lparr>sample_size = Some 0, results = [\<lparr>result_name = ''m'', result_tags = Map.empty,
          result_values = []\<rparr>]\<rparr> # []"
    by (simp add: nothing_counted_def)
  have q1: "queries (counted 3 (Num 42)) =
      \<lparr>sample_size = Some 3, results = [\<lparr>result_name = ''m'', result_tags = Map.empty,
          result_values = [(Num 0, Num 42)]\<rparr>]\<rparr> # []"
    by (simp add: counted_def)
  from readCount_value [OF ms r0 q0]
  have "fst (readCount (constant_server (response_with 200 [] nothing_counted)) ''http://db''
          plain_request []) = Inr (Num 0)"
    by (simp add: truthy_def)
  moreover from readCount_value [OF ms r1 q1,
      of "\<lparr>result_name = ''m'', result_tags = Map.empty, result_values = [(Num 0, Num 42)]\<rparr>" "[]"
         "(Num 0, Num 42)" "[]"]
  have "fst (readCount (constant_server (response_with 200 [] (counted 3 (Num 42)))) ''http://db''
          plain_request []) = Inr (Num 42)"
    by (simp add: truthy_def)
  ultimately show ?thesis
    by simp
qed

text \<open>
  C6, as the claim states it, fails: \<open>readCount\<close> makes no copy. After a call on a request
  whose metric has no aggregators, the caller's request is no longer the one given.
\<close>

theorem readCount_copy_counterexample:
  "fst (snd (readCount no_server ''http://db'' plain_request [])) \<noteq> plain_request"
  by (simp add: readCount_def plain_request_def createSimpleRequest_def read_def fetch_def
      no_server_def Let_def)

text \<open>
  C6, amended. \<open>readCount\<close> writes to the request it is given: after the call, every metric
  of the caller's request has as its aggregators the single \<open>count\<close> aggregator with
  \<open>align_sampling = true\<close> and a sampling of \<open>999999\<close> years, and nothing else of the
  request has changed; the request sent to the server is that same request.
\<close>

theorem readCount_writes_request:
  assumes "metrics request = Some ms"
  shows "fst (snd (readCount net url request calls)) =
      request\<lparr>metrics := Some (map (\<lambda>m. m\<lparr>aggregators := Some
        [\<lparr>aggregator_name = ''count'', align_sampling = True,
          sampling = \<lparr>sampling_value = ''999999'', sampling_unit = ''years''\<rparr>\<rparr>]\<rparr>) ms)\<rparr>
    \<and> snd (snd (readCount net url request calls)) =
      calls @ [(apiUrl url @ ''/datapoints/query'',
              getPostJsonRequest (RequestBody (fst (snd (readCount net url request calls)))))]"
proof -
  let ?request' = "request\<lparr>metrics :=
      Some (map (\<lambda>m. m\<lparr>aggregators := Some [count_aggregator]\<rparr>) ms)\<rparr>"
  have agg: "count_aggregator =
      \<lparr>aggregator_name = ''count'', align_sampling = True,
       sampling = \<lparr>sampling_value = ''999999'', sampling_unit = ''years''\<rparr>\<rparr>"
    by (simp add: count_aggregator_def string_of_allYears)
  have a: "fst (snd (readCount net url request calls)) = ?request'"
    using assms by (simp add: readCount_def Let_def split: prod.split sum.split)
  have "snd (snd (readCount net url request calls)) = snd (read net url ?request' calls)"
    using assms by (simp add: readCount_def Let_def split: prod.split sum.split)
  then have b: "snd (snd (readCount net url request calls)) =
      calls @ [(apiUrl url @ ''/datapoints/query'', getPostJsonRequest (RequestBody ?request'))]"
    by (simp only: read_log)
  from a b show ?thesis
    by (simp add: agg)
qed

theorem readCount_writes_request_witness:
  "metrics plain_request =
     Some [\<lparr>metric_name = Some ''m'', metric_tags = None, group_by = None, aggregators = None\<rparr>]
   \<and> metrics (fst (snd (readCount no_server ''http://db'' plain_request []))) =
     Some [\<lparr>metric_name = Some ''m'', metric_tags = None, group_by = None,
            aggregators = Some [\<lparr>aggregator_name = ''count'', align_sampling = True,
              sampling = \<lparr>sampling_value = ''999999'', sampling_unit = ''years''\<rparr>\<rparr>]\<rparr>]"
proof -
  have ms: "metrics plain_request =
      Some [\<lparr>metric_name = Some ''m'', metric_tags = None, group_by = None, aggregators = None\<rparr>]"
    by (simp add: plain_request_def createSimpleRequest_def)
  from readCount_writes_request [OF ms, of no_server "''http://db''" "[]"] ms show ?thesis
    by simp
qed

text \<open>
  C7, as the claim states it, fails: on a decoded response whose \<open>errors\<close> is the empty
  array, \<open>read\<close> throws (the empty text) and does not return the response.
\<close>

theorem read_empty_errors_counterexample:
  "errors empty_errors = Some []
   \<and> fst (read (constant_server (response_with 200 [] empty_errors)) ''http://db''
          plain_request []) = Inl (Thrown [])"
  by (simp add: read_def fetch_def json_def constant_server_def response_with_def
      empty_errors_def)

text \<open>
  C7, amended. \<open>read\<close> throws exactly when the decoded response has an \<open>errors\<close> property,
  whatever its length, and what it throws is the text of the messages joined by line
  feeds; when the property is absent it returns the decoded response unchanged.
\<close>

theorem read_errors_present:
  assumes "net calls (apiUrl url @ ''/datapoints/query'', getPostJsonRequest (RequestBody request))
      = Some response"
    and "response_json response = Some obj"
  shows "(\<forall>es. errors obj = Some es \<longrightarrow>
            fst (read net url request calls) = Inl (Thrown (join [CHR 0x0A] es)))
    \<and> (errors obj = None \<longrightarrow> fst (read net url request calls) = Inr obj)"
  using assms by (simp add: read_def fetch_def json_def)

theorem read_errors_present_witness:
  "fst (read (constant_server (response_with 200 [] \<lparr>queries = [], errors = Some [''a'', ''b'']\<rparr>))
          ''http://db'' plain_request []) = Inl (Thrown [CHR ''a'', CHR 0x0A, CHR ''b''])
   \<and> fst (read (constant_server (response_with 200 [] no_queries)) ''http://db''
          plain_request []) = Inr no_queries"
proof -
  let ?e = "\<lparr>queries = [], errors = Some [''a'', ''b'']\<rparr>"
  have "constant_server (response_with 200 [] ?e) []
      (apiUrl ''http://db'' @ ''/datapoints/query'', getPostJsonRequest (RequestBody plain_request))
      = Some (response_with 200 [] ?e)"
    by (simp add: constant_server_def)
  moreover have "response_json (response_with 200 [] ?e) = Some ?e"
    by (simp add: response_with_def)
  ultimately have "fst (read (constant_server (response_with 200 [] ?e)) ''http://db''
      plain_request []) = Inl (Thrown (join [CHR 0x0A] [''a'', ''b'']))"
    using read_errors_present [of "constant_server (response_with 200 [] ?e)" "[]" "''http://db''"
        plain_request "response_with 200 [] ?e" ?e]
    by simp
  moreover have "constant_server (response_with 200 [] no_queries) []
      (apiUrl ''http://db'' @ ''/datapoints/query'', getPostJsonRequest (RequestBody plain_request))
      = Some (response_with 200 [] no_queries)"
    by (simp add: constant_server_def)
  moreover have "response_json (response_with 200 [] no_queries) = Some no_queries"
    by (simp add: response_with_def)
  ultimately show ?thesis
    using read_errors_present [of "constant_server (response_with 200 [] no_queries)" "[]"
        "''http://db''" plain_request "response_with 200 [] no_queries" no_queries]
    by (simp add: no_queries_def)
qed

text \<open>
  C8, as the claim states it, fails: against a server that answers \<open>{queries: []}\<close>,
  \<open>getMetricTags\<close> ends in the runtime's \<open>TypeError\<close>, the unguarded fault of reading
  \<open>results\<close> of \<open>undefined\<close>. The source has no check of the response and no error of
  its own for a malformed one.
\<close>

theorem getMetricTags_no_queries_counterexample:
  "fst (getMetricTags (constant_server (response_with 200 [] no_queries)) ''http://db'' ''m'' [])
     = Inl TypeError"
  by (simp add: getMetricTags_def fetch_def json_def first_of_def constant_server_def
      response_with_def no_queries_def)

text \<open>
  C8, amended. When the decoded response has no query, or its first query has no result,
  \<open>getMetricTags\<close> fails with the \<open>TypeError\<close> of the unguarded property read; it does
  not return a mapping, empty or other.
\<close>

theorem getMetricTags_malformed:
  assumes "net calls (queryUrl url @ ''/tags'', getPostJsonRequest (RequestBody
        \<lparr>cache_time = Some 0, start_absolute = Some 0, end_absolute = None, time_zone = None,
         metrics = Some [\<lparr>metric_name = Some metricName, metric_tags = Some Map.empty,
                          group_by = None, aggregators = None\<rparr>]\<rparr>)) = Some response"
    and "response_json response = Some obj"
    and "queries obj = [] \<or> (\<exists>query rest. queries obj = query # rest \<and> results query = [])"
  shows "fst (getMetricTags net url metricName calls) = Inl TypeError"
  using assms by (auto simp add: getMetricTags_def fetch_def json_def first_of_def)

theorem getMetricTags_malformed_witness:
  "fst (getMetricTags (constant_server (response_with 200 [] no_results)) ''http://db'' ''m'' [])
     = Inl TypeError
   \<and> (\<exists>query rest. queries no_results = query # rest \<and> results query = [])"
proof -
  have q: "\<exists>query rest. queries no_results = query # rest \<and> results query = []"
    by (simp add: no_results_def)
  have "fst (getMetricTags (constant_server (response_with 200 [] no_results)) ''http://db''
      ''m'' []) = Inl TypeError"
    by (rule getMetricTags_malformed [where response = "response_with 200 [] no_results"
          and obj = no_results, OF _ _ disjI2 [OF q]])
      (simp_all add: constant_server_def response_with_def)
  with q show ?thesis
    by simp
qed

text \<open>
  C9. Each of \<open>deleteMetric\<close>, \<open>write\<close> and \<open>delete\<close>, once the server has answered,
  succeeds exactly when the status of the response is 204, and with any other status
  fails with an error whose message is the text of the response body.
\<close>

theorem mutating_operations_status:
  "(net calls (apiUrl url @ ''/metric/'' @ encodeURIComponent metricName,
        \<lparr>init_method = ''DELETE'', init_headers = [], init_body = None, init_compress = None\<rparr>)
      = Some response
    \<longrightarrow> fst (deleteMetric net encodeURIComponent url metricName calls) =
          (if response_status response = 204 then Inr response
           else Inl (Error (response_text response))))
   \<and> (net calls (apiUrl url @ ''/datapoints'', getPostJsonRequest (IncomingBody items))
      = Some response
    \<longrightarrow> fst (write_items net url items calls) =
          (if response_status response = 204 then Inr ()
           else Inl (Error (response_text response))))
   \<and> (net calls (apiUrl url @ ''/datapoints/delete'', getPostJsonRequest (RequestBody request))
      = Some response
    \<longrightarrow> fst (delete net url request calls) =
          (if response_status response = 204 then Inr response
           else Inl (Error (response_text response))))"
  by (simp add: deleteMetric_def write_items_def delete_def fetch_def)

theorem mutating_operations_status_witness:
  "fst (deleteMetric (constant_server (response_with 404 ''no such metric'' no_queries)) id
          ''http://db'' ''m'' []) = Inl (Error ''no such metric'')
   \<and> fst (write_items (constant_server (response_with 404 ''no such metric'' no_queries))
          ''http://db'' [] []) = Inl (Error ''no such metric'')
   \<and> fst (delete (constant_server (response_with 404 ''no such metric'' no_queries))
          ''http://db'' plain_request []) = Inl (Error ''no such metric'')
   \<and> fst (deleteMetric (constant_server (response_with 204 [] no_queries)) id
          ''http://db'' ''m'' []) = Inr (response_with 204 [] no_queries)
   \<and> fst (write_items (constant_server (response_with 204 [] no_queries))
          ''http://db'' [] []) = Inr ()
   \<and> fst (delete (constant_server (response_with 204 [] no_queries))
          ''http://db'' plain_request []) = Inr (response_with 204 [] no_queries)"
  using mutating_operations_status [of "constant_server (response_with 404 ''no such metric'' no_queries)"
      "[]" "''http://db''" id "''m''" "response_with 404 ''no such metric'' no_queries" "[]"
      plain_request]
    mutating_operations_status [of "constant_server (response_with 204 [] no_queries)"
      "[]" "''http://db''" id "''m''" "response_with 204 [] no_queries" "[]" plain_request]
  by (simp add: constant_server_def response_with_def)

section \<open>The loop of readCountLong\<close>

lemma read_log_call: "snd (read net url request calls) = calls @ [query_call url request]"
  by (simp add: read_log query_call_def)

lemma loop_body_request:
  "(let request = request\<lparr>end_absolute := Some t\<rparr>;
        request = request\<lparr>start_absolute := Some (t - interval settings + 1)\<rparr>;
        request = (if negative (start_absolute request)
                   then request\<lparr>start_absolute := Some 0\<rparr> else request)
    in f request) = f (window settings request t)"
  by (simp add: Let_def negative_def window_def max_def)

lemma readCountLong_loop_stop:
  "\<not> (0 < currentTime \<and> \<bar>currentTime - nonZeroTime\<bar> \<le> deadInterval settings) \<Longrightarrow>
   readCountLong_loop net url settings request currentTime nonZeroTime totalCount calls = Some (Inr totalCount, calls)"
  by (subst readCountLong_loop.simps, rule if_not_P)

lemma readCountLong_loop_step:
  assumes "0 < currentTime" and "\<bar>currentTime - nonZeroTime\<bar> \<le> deadInterval settings"
  shows "readCountLong_loop net url settings request currentTime nonZeroTime totalCount calls =
    (case window_count net url (window settings request currentTime) calls of
       Inl e \<Rightarrow> Some (Inl e, calls @ [query_call url (window settings request currentTime)])
     | Inr c \<Rightarrow>
         readCountLong_loop net url settings (window settings request currentTime)
           (currentTime - interval settings) (if js_gt c (Num 0) then currentTime else nonZeroTime) (js_add totalCount c)
           (calls @ [query_call url (window settings request currentTime)]))"
proof -
  obtain res calls' where r: "read net url (window settings request currentTime) calls = (res, calls')"
    by (cases "read net url (window settings request currentTime) calls")
  with read_log_call [of net url "window settings request currentTime" calls]
  have l: "calls' = calls @ [query_call url (window settings request currentTime)]"
    by simp
  from assms have c: "0 < currentTime \<and> \<bar>currentTime - nonZeroTime\<bar> \<le> deadInterval settings"
    by simp
  show ?thesis
    apply (subst readCountLong_loop.simps)
    apply (simp only: c if_True loop_body_request)
    apply (simp only: r l window_count_def fst_conv prod.case)
    apply (simp split: sum.split)
    done
qed

text \<open>
  An induction principle for the loop when the interval is positive: the current time
  decreases in every iteration and the loop runs only while it is positive. A property of
  the state and the outcome holds for the loop's outcome if it holds when the loop stops,
  when a window fails, and is passed backwards over an iteration.
\<close>

lemma readCountLong_loop_induct:
  assumes iv: "0 < interval settings"
    and stop: "\<And>request currentTime nonZeroTime totalCount calls.
      \<not> (0 < currentTime \<and> \<bar>currentTime - nonZeroTime\<bar> \<le> deadInterval settings) \<Longrightarrow>
      P request currentTime nonZeroTime totalCount calls (Some (Inr totalCount, calls))"
    and fail: "\<And>request currentTime nonZeroTime totalCount calls e.
      0 < currentTime \<Longrightarrow> \<bar>currentTime - nonZeroTime\<bar> \<le> deadInterval settings \<Longrightarrow>
      window_count net url (window settings request currentTime) calls = Inl e \<Longrightarrow>
      P request currentTime nonZeroTime totalCount calls
        (Some (Inl e, calls @ [query_call url (window settings request currentTime)]))"
    and step: "\<And>request currentTime nonZeroTime totalCount calls c r.
      0 < currentTime \<Longrightarrow> \<bar>currentTime - nonZeroTime\<bar> \<le> deadInterval settings \<Longrightarrow>
      window_count net url (window settings request currentTime) calls = Inr c \<Longrightarrow>
      P (window settings request currentTime) (currentTime - interval settings)
        (if js_gt c (Num 0) then currentTime else nonZeroTime) (js_add totalCount c)
        (calls @ [query_call url (window settings request currentTime)]) r \<Longrightarrow>
      P request currentTime nonZeroTime totalCount calls r"
  shows "P request currentTime nonZeroTime totalCount calls
    (readCountLong_loop net url settings request currentTime nonZeroTime totalCount calls)"
proof (induction "nat currentTime" arbitrary: request currentTime nonZeroTime totalCount calls
    rule: less_induct)
  case less
  show ?case
  proof (cases "0 < currentTime \<and> \<bar>currentTime - nonZeroTime\<bar> \<le> deadInterval settings")
    case False
    from stop [OF False] readCountLong_loop_stop [OF False] show ?thesis
      by simp
  next
    case True
    then have pos: "0 < currentTime" and near: "\<bar>currentTime - nonZeroTime\<bar> \<le> deadInterval settings"
      by simp_all
    note unfold = readCountLong_loop_step [OF pos near, of net url request totalCount calls]
    show ?thesis
    proof (cases "window_count net url (window settings request currentTime) calls")
      case (Inl e)
      with unfold fail [OF pos near Inl] show ?thesis
        by simp
    next
      case (Inr c)
      from iv pos have "nat (currentTime - interval settings) < nat currentTime"
        by linarith
      from less [OF this]
      have "P (window settings request currentTime) (currentTime - interval settings)
          (if js_gt c (Num 0) then currentTime else nonZeroTime) (js_add totalCount c)
          (calls @ [query_call url (window settings request currentTime)])
          (readCountLong_loop net url settings (window settings request currentTime)
            (currentTime - interval settings) (if js_gt c (Num 0) then currentTime else nonZeroTime)
            (js_add totalCount c) (calls @ [query_call url (window settings request currentTime)]))" .
      from step [OF pos near Inr this] unfold Inr show ?thesis
        by simp
    qed
  qed
qed

lemma readCountLong_loop_returns:
  assumes "0 < interval settings"
  shows "\<exists>r. readCountLong_loop net url settings request currentTime nonZeroTime totalCount calls
    = Some r"
  by (rule readCountLong_loop_induct [OF assms, where P = "\<lambda>_ _ _ _ _ r. \<exists>x. r = Some x"])
    simp_all

lemma readCountLong_enters_loop:
  "1 < interval settings \<Longrightarrow>
   readCountLong net url now metricName tags settings calls =
     readCountLong_loop net url settings (counting_request metricName tags) now now (Num 0) calls"
  by (cases tags) (simp_all add: readCountLong_def createSimpleRequest_def counting_request_def)

lemma window_window [simp]:
  "window settings (window settings request t) t' = window settings request t'"
  by (simp add: window_def)

lemma window_calls_0 [simp]: "window_calls url settings request t 0 = []"
  by (simp add: window_calls_def)

lemma earlier_window: "t - d - int k * d = t - int (Suc k) * d"
  by (simp add: algebra_simps)

lemma window_calls_Suc:
  "window_calls url settings request t (Suc n) =
     query_call url (window settings request t) #
     window_calls url settings (window settings request t) (t - interval settings) n"
  by (simp only: window_calls_def map_upt_Suc window_window earlier_window) simp

lemma length_window_calls [simp]: "length (window_calls url settings request t n) = n"
  by (simp add: window_calls_def)

text \<open>
  The calls of a run of the loop: whatever the outcome, the loop has made the calls for
  some number of successive windows, and each of these windows ends at a positive time.
\<close>

lemma readCountLong_loop_calls:
  assumes iv: "0 < interval settings"
    and run: "readCountLong_loop net url settings request currentTime nonZeroTime totalCount calls
      = Some (result, calls')"
  shows "\<exists>n. calls' = calls @ window_calls url settings request currentTime n
    \<and> (\<forall>k<n. 0 < currentTime - int k * interval settings)"
proof -
  let ?P = "\<lambda>request currentTime (nonZeroTime :: int) (totalCount :: number) calls r.
    \<forall>result calls'. r = Some (result, calls') \<longrightarrow>
      (\<exists>n. calls' = calls @ window_calls url settings request currentTime n
        \<and> (\<forall>k<n. 0 < currentTime - int k * interval settings))"
  have "?P request currentTime nonZeroTime totalCount calls
    (readCountLong_loop net url settings request currentTime nonZeroTime totalCount calls)"
  proof (rule readCountLong_loop_induct [OF iv, where P = ?P], goal_cases)
    case (1 request currentTime nonZeroTime totalCount calls)
    have "calls = calls @ window_calls url settings request currentTime 0
      \<and> (\<forall>k<0. 0 < currentTime - int k * interval settings)"
      by simp
    then show ?case by blast
  next
    case (2 request currentTime nonZeroTime totalCount calls e)
    have "calls @ [query_call url (window settings request currentTime)] =
        calls @ window_calls url settings request currentTime (Suc 0)
      \<and> (\<forall>k<Suc 0. 0 < currentTime - int k * interval settings)"
      using 2(1) by (simp add: window_calls_Suc)
    then show ?case by blast
  next
    case (3 request currentTime nonZeroTime totalCount calls c r)
    show ?case
    proof (intro allI impI)
      fix result calls'
      assume "r = Some (result, calls')"
      with 3(4) obtain n where
        l: "calls' = (calls @ [query_call url (window settings request currentTime)]) @
          window_calls url settings (window settings request currentTime)
            (currentTime - interval settings) n"
        and p: "\<forall>k<n. 0 < currentTime - interval settings - int k * interval settings"
        by blast
      from l have "calls' = calls @ window_calls url settings request currentTime (Suc n)"
        by (simp add: window_calls_Suc)
      moreover have "\<forall>k<Suc n. 0 < currentTime - int k * interval settings"
      proof (intro allI impI)
        fix k
        assume "k < Suc n"
        show "0 < currentTime - int k * interval settings"
        proof (cases k)
          case 0
          with 3(1) show ?thesis by simp
        next
          case (Suc j)
          with \<open>k < Suc n\<close> p have "0 < currentTime - interval settings - int j * interval settings"
            by simp
          with Suc show ?thesis
            by (simp only: earlier_window)
        qed
      qed
      ultimately show "\<exists>n. calls' = calls @ window_calls url settings request currentTime n
        \<and> (\<forall>k<n. 0 < currentTime - int k * interval settings)"
        by blast
    qed
  qed
  with run show ?thesis
    by blast
qed

text \<open>
  The total of a run of the loop that returns: the loop has asked for some number of
  successive windows, each after the calls for the windows before it, and what it
  returns is the total it started with, with the counts of these windows added to it one
  after the other.
\<close>

lemma readCountLong_loop_total:
  assumes iv: "0 < interval settings"
    and run: "readCountLong_loop net url settings request currentTime nonZeroTime totalCount calls
      = Some (Inr total', calls')"
  shows "\<exists>cs. calls' = calls @ window_calls url settings request currentTime (length cs)
    \<and> (\<forall>k<length cs.
          window_count net url (window settings request (currentTime - int k * interval settings))
            (calls @ window_calls url settings request currentTime k) = Inr (cs ! k))
    \<and> total' = foldl js_add totalCount cs"
proof -
  let ?Q = "\<lambda>request currentTime totalCount calls total' calls' cs.
    calls' = calls @ window_calls url settings request currentTime (length cs)
    \<and> (\<forall>k<length cs.
          window_count net url (window settings request (currentTime - int k * interval settings))
            (calls @ window_calls url settings request currentTime k) = Inr (cs ! k))
    \<and> total' = foldl js_add totalCount cs"
  let ?P = "\<lambda>request currentTime (nonZeroTime :: int) totalCount calls r.
    \<forall>total' calls'. r = Some (Inr total', calls') \<longrightarrow>
      (\<exists>cs. ?Q request currentTime totalCount calls total' calls' cs)"
  have "?P request currentTime nonZeroTime totalCount calls
    (readCountLong_loop net url settings request currentTime nonZeroTime totalCount calls)"
  proof (rule readCountLong_loop_induct [OF iv, where P = ?P], goal_cases)
    case (1 request currentTime nonZeroTime totalCount calls)
    have "?Q request currentTime totalCount calls totalCount calls []"
      by simp
    then show ?case by blast
  next
    case (2 request currentTime nonZeroTime totalCount calls e)
    show ?case by simp
  next
    case (3 request currentTime nonZeroTime totalCount calls c r)
    let ?request' = "window settings request currentTime"
    let ?calls1 = "calls @ [query_call url ?request']"
    show ?case
    proof (intro allI impI)
      fix total' calls'
      assume "r = Some (Inr total', calls')"
      with 3(4) obtain cs where
        l: "calls' = ?calls1 @
          window_calls url settings ?request' (currentTime - interval settings) (length cs)"
        and w: "\<forall>k<length cs.
          window_count net url
            (window settings ?request' (currentTime - interval settings - int k * interval settings))
            (?calls1 @ window_calls url settings ?request' (currentTime - interval settings) k)
          = Inr (cs ! k)"
        and t: "total' = foldl js_add (js_add totalCount c) cs"
        by blast
      from l have "calls' = calls @ window_calls url settings request currentTime (length (c # cs))"
        by (simp add: window_calls_Suc)
      moreover have "\<forall>k<length (c # cs).
          window_count net url (window settings request (currentTime - int k * interval settings))
            (calls @ window_calls url settings request currentTime k) = Inr ((c # cs) ! k)"
      proof (intro allI impI)
        fix k
        assume k: "k < length (c # cs)"
        show "window_count net url (window settings request (currentTime - int k * interval settings))
            (calls @ window_calls url settings request currentTime k) = Inr ((c # cs) ! k)"
        proof (cases k)
          case 0
          with 3(3) show ?thesis by simp
        next
          case (Suc j)
          with k have "j < length cs" by simp
          with w have "window_count net url
            (window settings ?request' (currentTime - interval settings - int j * interval settings))
            (?calls1 @ window_calls url settings ?request' (currentTime - interval settings) j)
            = Inr (cs ! j)"
            by blast
          then show ?thesis
            by (simp only: Suc window_calls_Suc window_window earlier_window nth_Cons_Suc
                append_Cons append_Nil append_assoc)
        qed
      qed
      moreover from t have "total' = foldl js_add totalCount (c # cs)"
        by simp
      ultimately show "\<exists>cs. ?Q request currentTime totalCount calls total' calls' cs"
        by blast
    qed
  qed
  with run show ?thesis
    by blast
qed

text \<open>
  The dead interval: every window the loop asks for lies within the dead interval of the
  marker the loop started with, or of an earlier window of the run whose count was
  positive.
\<close>

lemma readCountLong_loop_dead_interval:
  assumes iv: "0 < interval settings"
    and run: "readCountLong_loop net url settings request currentTime nonZeroTime totalCount calls
      = Some (result, calls @ window_calls url settings request currentTime n)"
    and k: "k < n"
  shows "\<bar>currentTime - int k * interval settings - nonZeroTime\<bar> \<le> deadInterval settings
    \<or> (\<exists>j<k. (\<exists>c. js_gt c (Num 0) \<and>
          window_count net url (window settings request (currentTime - int j * interval settings))
            (calls @ window_calls url settings request currentTime j) = Inr c)
        \<and> int (k - j) * interval settings \<le> deadInterval settings)"
proof -
  let ?near = "\<lambda>request currentTime nonZeroTime calls k.
    \<bar>currentTime - int k * interval settings - nonZeroTime\<bar> \<le> deadInterval settings
    \<or> (\<exists>j<k. (\<exists>c. js_gt c (Num 0) \<and>
          window_count net url (window settings request (currentTime - int j * interval settings))
            (calls @ window_calls url settings request currentTime j) = Inr c)
        \<and> int (k - j) * interval settings \<le> deadInterval settings)"
  let ?P = "\<lambda>request currentTime nonZeroTime (totalCount :: number) calls r.
    \<forall>result n k. r = Some (result, calls @ window_calls url settings request currentTime n)
      \<and> k < n \<longrightarrow> ?near request currentTime nonZeroTime calls k"
  have "?P request currentTime nonZeroTime totalCount calls
    (readCountLong_loop net url settings request currentTime nonZeroTime totalCount calls)"
  proof (rule readCountLong_loop_induct [OF iv, where P = ?P], goal_cases)
    case (1 request currentTime nonZeroTime totalCount calls)
    show ?case
    proof (intro allI impI)
      fix result :: "error + number" and n k :: nat
      assume "Some (Inr totalCount, calls) =
          Some (result, calls @ window_calls url settings request currentTime n) \<and> k < n"
      then have "length calls = length (calls @ window_calls url settings request currentTime n)"
        and "k < n"
        by simp_all
      then show "?near request currentTime nonZeroTime calls k"
        by simp
    qed
  next
    case (2 request currentTime nonZeroTime totalCount calls e)
    show ?case
    proof (intro allI impI)
      fix result :: "error + number" and n k :: nat
      assume "Some (Inl e, calls @ [query_call url (window settings request currentTime)]) =
          Some (result, calls @ window_calls url settings request currentTime n) \<and> k < n"
      then have "length (calls @ [query_call url (window settings request currentTime)]) =
          length (calls @ window_calls url settings request currentTime n)"
        and "k < n"
        by simp_all
      then have "k = 0"
        by simp
      with 2(2) show "?near request currentTime nonZeroTime calls k"
        by simp
    qed
  next
    case (3 request currentTime nonZeroTime totalCount calls c r)
    let ?request' = "window settings request currentTime"
    let ?calls1 = "calls @ [query_call url ?request']"
    let ?marker = "if js_gt c (Num 0) then currentTime else nonZeroTime"
    show ?case
    proof (intro allI impI)
      fix result :: "error + number" and n k :: nat
      assume a: "r = Some (result, calls @ window_calls url settings request currentTime n) \<and> k < n"
      show "?near request currentTime nonZeroTime calls k"
      proof (cases k)
        case 0
        with 3(2) show ?thesis by simp
      next
        case (Suc k')
        with a obtain n' where n: "n = Suc n'" and k': "k' < n'"
          by (cases n) simp_all
        from a n have "r = Some (result, ?calls1 @
            window_calls url settings ?request' (currentTime - interval settings) n')"
          by (simp add: window_calls_Suc)
        with 3(4) k'
        have "?near ?request' (currentTime - interval settings) ?marker ?calls1 k'"
          by blast
        then consider
          (marker) "\<bar>currentTime - interval settings - int k' * interval settings - ?marker\<bar>
            \<le> deadInterval settings"
          | (window) j' c' where "j' < k'" "js_gt c' (Num 0)"
            "window_count net url
              (window settings ?request' (currentTime - interval settings - int j' * interval settings))
              (?calls1 @ window_calls url settings ?request' (currentTime - interval settings) j')
              = Inr c'"
            "int (k' - j') * interval settings \<le> deadInterval settings"
          by blast
        then show ?thesis
        proof cases
          case marker
          show ?thesis
          proof (cases "js_gt c (Num 0)")
            case False
            with marker Suc show ?thesis
              by (simp only: earlier_window if_False) simp
          next
            case True
            with marker have "\<bar>- (int (Suc k') * interval settings)\<bar> \<le> deadInterval settings"
              by (simp add: algebra_simps)
            moreover from iv have "0 \<le> int (Suc k') * interval settings"
              by simp
            ultimately have "int (Suc k' - 0) * interval settings \<le> deadInterval settings"
              by simp
            moreover from 3(3) True
            have "\<exists>c. js_gt c (Num 0) \<and>
              window_count net url (window settings request (currentTime - int (0::nat) * interval settings))
                (calls @ window_calls url settings request currentTime 0) = Inr c"
              by simp
            ultimately have "\<exists>j<Suc k'. (\<exists>c. js_gt c (Num 0) \<and>
              window_count net url (window settings request (currentTime - int j * interval settings))
                (calls @ window_calls url settings request currentTime j) = Inr c)
              \<and> int (Suc k' - j) * interval settings \<le> deadInterval settings"
              by blast
            with Suc show ?thesis
              by blast
          qed
        next
          case window
          from window(3)
          have "window_count net url
              (window settings request (currentTime - int (Suc j') * interval settings))
              (calls @ window_calls url settings request currentTime (Suc j')) = Inr c'"
            by (simp only: window_calls_Suc window_window earlier_window
                append_Cons append_Nil append_assoc)
          with window(1,2,4)
          have "Suc j' < Suc k' \<and> (\<exists>c. js_gt c (Num 0) \<and>
              window_count net url
                (window settings request (currentTime - int (Suc j') * interval settings))
                (calls @ window_calls url settings request currentTime (Suc j')) = Inr c)
              \<and> int (Suc k' - Suc j') * interval settings \<le> deadInterval settings"
            by auto
          then have "\<exists>j<Suc k'. (\<exists>c. js_gt c (Num 0) \<and>
              window_count net url (window settings request (currentTime - int j * interval settings))
                (calls @ window_calls url settings request currentTime j) = Inr c)
              \<and> int (Suc k' - j) * interval settings \<le> deadInterval settings"
            by blast
          with Suc show ?thesis
            by blast
        qed
      qed
    qed
  qed
  with run k show ?thesis
    by blast
qed

text \<open>
  A stretch of empty windows: when every window from the current one on that is still
  within the dead interval of the marker reports the count 0, the loop returns the total
  it has.
\<close>

lemma readCountLong_loop_zeros:
  assumes iv: "0 < interval settings"
    and zeros: "\<forall>k. 0 < currentTime - int k * interval settings
        \<and> \<bar>currentTime - int k * interval settings - nonZeroTime\<bar> \<le> deadInterval settings
      \<longrightarrow> window_count net url (window settings request (currentTime - int k * interval settings))
            (calls @ window_calls url settings request currentTime k) = Inr (Num 0)"
    and stable: "js_add totalCount (Num 0) = totalCount"
  shows "\<exists>calls'. readCountLong_loop net url settings request currentTime nonZeroTime totalCount calls
    = Some (Inr totalCount, calls')"
proof -
  let ?zeros = "\<lambda>request currentTime nonZeroTime calls.
    \<forall>k. 0 < currentTime - int k * interval settings
        \<and> \<bar>currentTime - int k * interval settings - nonZeroTime\<bar> \<le> deadInterval settings
      \<longrightarrow> window_count net url (window settings request (currentTime - int k * interval settings))
            (calls @ window_calls url settings request currentTime k) = Inr (Num 0)"
  let ?P = "\<lambda>request currentTime nonZeroTime totalCount calls r.
    ?zeros request currentTime nonZeroTime calls \<and> js_add totalCount (Num 0) = totalCount
    \<longrightarrow> (\<exists>calls'. r = Some (Inr totalCount, calls'))"
  have "?P request currentTime nonZeroTime totalCount calls
    (readCountLong_loop net url settings request currentTime nonZeroTime totalCount calls)"
  proof (rule readCountLong_loop_induct [OF iv, where P = ?P], goal_cases)
    case (1 request currentTime nonZeroTime totalCount calls)
    show ?case by simp
  next
    case (2 request currentTime nonZeroTime totalCount calls e)
    show ?case
    proof
      assume "?zeros request currentTime nonZeroTime calls
        \<and> js_add totalCount (Num 0) = totalCount"
      then have "?zeros request currentTime nonZeroTime calls"
        by (rule conjunct1)
      then have "0 < currentTime - int 0 * interval settings
          \<and> \<bar>currentTime - int 0 * interval settings - nonZeroTime\<bar> \<le> deadInterval settings
        \<longrightarrow> window_count net url (window settings request (currentTime - int 0 * interval settings))
            (calls @ window_calls url settings request currentTime 0) = Inr (Num 0)"
        by (rule spec)
      with 2 show "\<exists>calls'. Some (Inl e, calls @ [query_call url (window settings request currentTime)])
          = Some (Inr totalCount, calls')"
        by simp
    qed
  next
    case (3 request currentTime nonZeroTime totalCount calls c r)
    let ?request' = "window settings request currentTime"
    let ?calls1 = "calls @ [query_call url ?request']"
    show ?case
    proof
      assume "?zeros request currentTime nonZeroTime calls
        \<and> js_add totalCount (Num 0) = totalCount"
      then have z: "?zeros request currentTime nonZeroTime calls"
        and st: "js_add totalCount (Num 0) = totalCount"
        by blast+
      from z have "0 < currentTime - int 0 * interval settings
          \<and> \<bar>currentTime - int 0 * interval settings - nonZeroTime\<bar> \<le> deadInterval settings
        \<longrightarrow> window_count net url (window settings request (currentTime - int 0 * interval settings))
            (calls @ window_calls url settings request currentTime 0) = Inr (Num 0)"
        by (rule spec)
      with 3(1,2,3) have c: "c = Num 0"
        by simp
      then have m: "\<not> js_gt c (Num 0)"
        by (simp add: js_gt_def)
      have "?zeros ?request' (currentTime - interval settings) nonZeroTime ?calls1"
      proof (intro allI impI)
        fix k
        assume "0 < currentTime - interval settings - int k * interval settings
          \<and> \<bar>currentTime - interval settings - int k * interval settings - nonZeroTime\<bar>
            \<le> deadInterval settings"
        then have "0 < currentTime - int (Suc k) * interval settings
          \<and> \<bar>currentTime - int (Suc k) * interval settings - nonZeroTime\<bar> \<le> deadInterval settings"
          by (simp only: earlier_window)
        with z have "window_count net url
            (window settings request (currentTime - int (Suc k) * interval settings))
            (calls @ window_calls url settings request currentTime (Suc k)) = Inr (Num 0)"
          by blast
        then show "window_count net url
            (window settings ?request' (currentTime - interval settings - int k * interval settings))
            (?calls1 @ window_calls url settings ?request' (currentTime - interval settings) k)
            = Inr (Num 0)"
          by (simp only: window_calls_Suc window_window earlier_window
              append_Cons append_Nil append_assoc)
      qed
      with 3(4) c m st show "\<exists>calls'. r = Some (Inr totalCount, calls')"
        by simp
    qed
  qed
  with zeros stable show ?thesis
    by blast
qed

section \<open>Runs against a concrete server\<close>

lemma two_window_count:
  "window_count (two_window_server t0 c0 t1 c1) url (window settings request t) calls =
     Inr (if t = t0 then c0 else if t = t1 then c1 else Num 0)"
  by (simp add: window_count_def read_def fetch_def json_def two_window_server_def
      getPostJsonRequest_def response_with_def counted_def nothing_counted_def count_of_def
      first_of_def truthy_def window_def)

lemma short_dead_interval_run:
  "readCountLong (two_window_server 20 (Num 3) 15 (Num 4)) ''http://db'' 20 ''m'' None
      \<lparr>interval = 5, deadInterval = 3\<rparr> [] =
    Some (Inr (Num 3), [query_call ''http://db''
      (window \<lparr>interval = 5, deadInterval = 3\<rparr> (counting_request ''m'' None) 20)])"
  by (simp add: readCountLong_enters_loop readCountLong_loop_step readCountLong_loop_stop
      two_window_count js_add_integers js_gt_def)

lemma two_window_run:
  "readCountLong (two_window_server 20 (Num 3) 15 (Num 4)) ''http://db'' 20 ''m'' None
      \<lparr>interval = 5, deadInterval = 5\<rparr> [] =
    Some (Inr (Num 7),
      [query_call ''http://db''
         (window \<lparr>interval = 5, deadInterval = 5\<rparr> (counting_request ''m'' None) 20),
       query_call ''http://db''
         (window \<lparr>interval = 5, deadInterval = 5\<rparr> (counting_request ''m'' None) 15),
       query_call ''http://db''
         (window \<lparr>interval = 5, deadInterval = 5\<rparr> (counting_request ''m'' None) 10)])"
  by (simp add: readCountLong_enters_loop readCountLong_loop_step readCountLong_loop_stop
      two_window_count js_add_integers js_gt_def)


text \<open>
  Counts whose sum is not a double: the total of \<open>9007199254740992\<close> and \<open>1\<close> is
  \<open>9007199254740992\<close>.
\<close>

lemma rounded_total_run:
  "readCountLong (two_window_server 20 (Num 9007199254740992) 15 (Num 1)) ''http://db'' 20 ''m''
      None \<lparr>interval = 5, deadInterval = 5\<rparr> [] =
    Some (Inr (Num 9007199254740992),
      [query_call ''http://db''
         (window \<lparr>interval = 5, deadInterval = 5\<rparr> (counting_request ''m'' None) 20),
       query_call ''http://db''
         (window \<lparr>interval = 5, deadInterval = 5\<rparr> (counting_request ''m'' None) 15),
       query_call ''http://db''
         (window \<lparr>interval = 5, deadInterval = 5\<rparr> (counting_request ''m'' None) 10)])"
  by (simp add: readCountLong_enters_loop readCountLong_loop_step readCountLong_loop_stop
      two_window_count js_add_integers js_add_beyond_safe js_gt_def)

section \<open>Properties of readCountLong\<close>

lemma window_calls_bounds:
  assumes "1 < interval settings"
    and "\<forall>k<n. 0 < t - int k * interval settings"
    and "call \<in> set (window_calls url settings request t n)"
  shows "\<exists>request s e. call = query_call url request
    \<and> start_absolute request = Some s \<and> end_absolute request = Some e
    \<and> s = max 0 (e - interval settings + 1) \<and> 0 < e \<and> 0 \<le> s \<and> s \<le> e"
proof -
  from assms(3) obtain k where k: "k < n"
    and c: "call = query_call url (window settings request (t - int k * interval settings))"
    by (auto simp add: window_calls_def)
  let ?e = "t - int k * interval settings"
  from assms(2) k have "0 < ?e"
    by blast
  with assms(1) have "0 \<le> max 0 (?e - interval settings + 1) \<and> max 0 (?e - interval settings + 1) \<le> ?e"
    by simp
  with c \<open>0 < ?e\<close> show ?thesis
    by (intro exI [of _ "window settings request ?e"] exI [of _ "max 0 (?e - interval settings + 1)"]
        exI [of _ ?e]) (simp add: window_def)
qed

text \<open>
  C10. With an interval greater than 1, \<open>readCountLong\<close> returns, and every request that
  its loop has sent has well-formed window bounds: the end is the positive current time
  of the iteration, the start is \<open>end - interval + 1\<close> clamped to 0 from below, so
  \<open>0 \<le> start \<le> end\<close>.
\<close>

theorem readCountLong_window_bounds:
  assumes "1 < interval settings"
  shows "\<exists>result calls'.
    readCountLong net url now metricName tags settings calls = Some (result, calls')
    \<and> take (length calls) calls' = calls
    \<and> (\<forall>call\<in>set (drop (length calls) calls').
          \<exists>request s e. call = query_call url request
            \<and> start_absolute request = Some s \<and> end_absolute request = Some e
            \<and> s = max 0 (e - interval settings + 1) \<and> 0 < e \<and> 0 \<le> s \<and> s \<le> e)"
proof -
  from assms have iv: "0 < interval settings"
    by simp
  from readCountLong_loop_returns [OF iv] readCountLong_enters_loop [OF assms]
  obtain result calls' where
    run: "readCountLong net url now metricName tags settings calls = Some (result, calls')"
    and loop: "readCountLong_loop net url settings (counting_request metricName tags) now now (Num 0) calls
      = Some (result, calls')"
    by (metis surj_pair)
  from readCountLong_loop_calls [OF iv loop] obtain n where
    l: "calls' = calls @ window_calls url settings (counting_request metricName tags) now n"
    and p: "\<forall>k<n. 0 < now - int k * interval settings"
    by blast
  from l have "take (length calls) calls' = calls"
    and "drop (length calls) calls' = window_calls url settings (counting_request metricName tags) now n"
    by simp_all
  with run window_calls_bounds [OF assms p] show ?thesis
    by auto
qed

theorem readCountLong_window_bounds_witness:
  "(\<exists>result calls'.
      readCountLong (two_window_server 20 (Num 3) 15 (Num 4)) ''http://db'' 20 ''m'' None
        \<lparr>interval = 5, deadInterval = 5\<rparr> [] = Some (result, calls')
      \<and> take (length ([] :: fetch_call list)) calls' = []
      \<and> (\<forall>call\<in>set (drop (length ([] :: fetch_call list)) calls').
            \<exists>request s e. call = query_call ''http://db'' request
              \<and> start_absolute request = Some s \<and> end_absolute request = Some e
              \<and> s = max 0 (e - interval \<lparr>interval = 5, deadInterval = 5\<rparr> + 1)
              \<and> 0 < e \<and> 0 \<le> s \<and> s \<le> e))
   \<and> readCountLong (two_window_server 20 (Num 3) 15 (Num 4)) ''http://db'' 20 ''m'' None
        \<lparr>interval = 5, deadInterval = 5\<rparr> [] =
      Some (Inr (Num 7),
        [query_call ''http://db''
           (window \<lparr>interval = 5, deadInterval = 5\<rparr> (counting_request ''m'' None) 20),
         query_call ''http://db''
           (window \<lparr>interval = 5, deadInterval = 5\<rparr> (counting_request ''m'' None) 15),
         query_call ''http://db''
           (window \<lparr>interval = 5, deadInterval = 5\<rparr> (counting_request ''m'' None) 10)])"
proof -
  have h: "1 < interval \<lparr>interval = 5, deadInterval = 5\<rparr>"
    by simp
  show ?thesis
    by (rule conjI [OF readCountLong_window_bounds [OF h] two_window_run])
qed

text \<open>
  C2. With an interval greater than 1 the backward scan of \<open>readCountLong\<close> terminates:
  the call returns, having asked for some number \<open>n\<close> of successive windows, the
  \<open>k\<close>-th ending at \<open>now - k * interval\<close>. Each of these ends at a positive time, so
  \<open>n * interval < max 0 now + interval\<close>; and each lies within the dead interval of the
  start or of an earlier window whose count was positive, so that no window is asked for
  once the time has reached 0 or a stretch longer than the dead interval has given no
  positive count.
\<close>

theorem readCountLong_terminates:
  assumes "1 < interval settings"
  shows "\<exists>result n.
    readCountLong net url now metricName tags settings calls =
      Some (result, calls @ window_calls url settings (counting_request metricName tags) now n)
    \<and> (\<forall>k<n. 0 < now - int k * interval settings)
    \<and> (\<forall>k<n. int k * interval settings \<le> deadInterval settings
          \<or> (\<exists>j<k. (\<exists>c. js_gt c (Num 0) \<and>
                window_count net url
                  (window settings (counting_request metricName tags)
                    (now - int j * interval settings))
                  (calls @ window_calls url settings (counting_request metricName tags) now j)
                = Inr c)
              \<and> int (k - j) * interval settings \<le> deadInterval settings))
    \<and> int n * interval settings < max 0 now + interval settings"
proof -
  let ?request = "counting_request metricName tags"
  from assms have iv: "0 < interval settings"
    by simp
  from readCountLong_loop_returns [OF iv]
  obtain result calls' where
    loop: "readCountLong_loop net url settings ?request now now (Num 0) calls = Some (result, calls')"
    by (metis surj_pair)
  from readCountLong_loop_calls [OF iv loop] obtain n where
    l: "calls' = calls @ window_calls url settings ?request now n"
    and p: "\<forall>k<n. 0 < now - int k * interval settings"
    by blast
  from loop l readCountLong_enters_loop [OF assms]
  have run: "readCountLong net url now metricName tags settings calls =
      Some (result, calls @ window_calls url settings ?request now n)"
    by simp
  have d: "\<forall>k<n. int k * interval settings \<le> deadInterval settings
      \<or> (\<exists>j<k. (\<exists>c. js_gt c (Num 0) \<and>
            window_count net url (window settings ?request (now - int j * interval settings))
              (calls @ window_calls url settings ?request now j) = Inr c)
          \<and> int (k - j) * interval settings \<le> deadInterval settings)"
  proof (intro allI impI)
    fix k
    assume k: "k < n"
    from iv have "\<bar>now - int k * interval settings - now\<bar> = int k * interval settings"
      by simp
    with readCountLong_loop_dead_interval [OF iv loop [unfolded l] k]
    show "int k * interval settings \<le> deadInterval settings
      \<or> (\<exists>j<k. (\<exists>c. js_gt c (Num 0) \<and>
            window_count net url (window settings ?request (now - int j * interval settings))
              (calls @ window_calls url settings ?request now j) = Inr c)
          \<and> int (k - j) * interval settings \<le> deadInterval settings)"
      by simp
  qed
  have b: "int n * interval settings < max 0 now + interval settings"
  proof (cases n)
    case 0
    with iv show ?thesis by simp
  next
    case (Suc m)
    with p have "0 < now - int m * interval settings"
      by simp
    with Suc show ?thesis
      by (simp add: algebra_simps)
  qed
  from run p d b show ?thesis
    by blast
qed

theorem readCountLong_terminates_witness:
  "(\<exists>result n.
      readCountLong (two_window_server 20 (Num 3) 15 (Num 4)) ''http://db'' 20 ''m'' None
          \<lparr>interval = 5, deadInterval = 5\<rparr> [] =
        Some (result, [] @ window_calls ''http://db'' \<lparr>interval = 5, deadInterval = 5\<rparr>
          (counting_request ''m'' None) 20 n)
      \<and> (\<forall>k<n. 0 < 20 - int k * interval \<lparr>interval = 5, deadInterval = 5\<rparr>)
      \<and> (\<forall>k<n. int k * interval \<lparr>interval = 5, deadInterval = 5\<rparr>
              \<le> deadInterval \<lparr>interval = 5, deadInterval = 5\<rparr>
            \<or> (\<exists>j<k. (\<exists>c. js_gt c (Num 0) \<and>
                  window_count (two_window_server 20 (Num 3) 15 (Num 4)) ''http://db''
                    (window \<lparr>interval = 5, deadInterval = 5\<rparr> (counting_request ''m'' None)
                      (20 - int j * interval \<lparr>interval = 5, deadInterval = 5\<rparr>))
                    ([] @ window_calls ''http://db'' \<lparr>interval = 5, deadInterval = 5\<rparr>
                      (counting_request ''m'' None) 20 j)
                  = Inr c)
                \<and> int (k - j) * interval \<lparr>interval = 5, deadInterval = 5\<rparr>
                  \<le> deadInterval \<lparr>interval = 5, deadInterval = 5\<rparr>))
      \<and> int n * interval \<lparr>interval = 5, deadInterval = 5\<rparr>
          < max 0 20 + interval \<lparr>interval = 5, deadInterval = 5\<rparr>)
   \<and> readCountLong (two_window_server 20 (Num 3) 15 (Num 4)) ''http://db'' 20 ''m'' None
        \<lparr>interval = 5, deadInterval = 5\<rparr> [] =
      Some (Inr (Num 7),
        [query_call ''http://db''
           (window \<lparr>interval = 5, deadInterval = 5\<rparr> (counting_request ''m'' None) 20),
         query_call ''http://db''
           (window \<lparr>interval = 5, deadInterval = 5\<rparr> (counting_request ''m'' None) 15),
         query_call ''http://db''
           (window \<lparr>interval = 5, deadInterval = 5\<rparr> (counting_request ''m'' None) 10)])"
proof -
  have h: "1 < interval \<lparr>interval = 5, deadInterval = 5\<rparr>"
    by simp
  show ?thesis
    by (rule conjI [OF readCountLong_terminates [OF h] two_window_run])
qed

lemma readCountLong_two_windows:
  assumes iv: "1 < interval settings"
    and now: "interval settings < now"
    and dead: "interval settings \<le> deadInterval settings"
    and c0: "window_count net url (window settings (counting_request metricName tags) now) calls
      = Inr c0"
    and c1: "window_count net url
        (window settings (counting_request metricName tags) (now - interval settings))
        (calls @ [query_call url (window settings (counting_request metricName tags) now)])
      = Inr c1"
    and zeros: "\<forall>k\<ge>2. 0 < now - int k * interval settings
        \<and> int k * interval settings - interval settings \<le> deadInterval settings
      \<longrightarrow> window_count net url
            (window settings (counting_request metricName tags) (now - int k * interval settings))
            (calls @ window_calls url settings (counting_request metricName tags) now k)
          = Inr (Num 0)"
  shows "\<exists>calls'. readCountLong net url now metricName tags settings calls
    = Some (Inr (js_add (js_add (Num 0) c0) c1), calls')"
proof -
  let ?request = "counting_request metricName tags"
  let ?d = "interval settings"
  let ?call0 = "query_call url (window settings ?request now)"
  let ?call1 = "query_call url (window settings ?request (now - ?d))"
  let ?marker = "if js_gt c1 (Num 0) then now - ?d else now"
  from iv have pos: "0 < ?d"
    by simp
  from iv now have p0: "0 < now" and n0: "\<bar>now - now\<bar> \<le> deadInterval settings"
    using dead by simp_all
  from now have p1: "0 < now - ?d"
    by simp
  from pos dead have n1: "\<bar>now - ?d - now\<bar> \<le> deadInterval settings"
    by simp
  have step0: "readCountLong_loop net url settings ?request now now (Num 0) calls =
      readCountLong_loop net url settings (window settings ?request now) (now - ?d) now
        (js_add (Num 0) c0) (calls @ [?call0])"
    by (simp add: readCountLong_loop_step [OF p0 n0] c0)
  have "window_count net url (window settings (window settings ?request now) (now - ?d))
      (calls @ [?call0]) = Inr c1"
    using c1 by (simp only: window_window)
  then have step1: "readCountLong_loop net url settings (window settings ?request now) (now - ?d)
        now (js_add (Num 0) c0) (calls @ [?call0]) =
      readCountLong_loop net url settings (window settings ?request (now - ?d)) (now - ?d - ?d)
        ?marker (js_add (js_add (Num 0) c0) c1) (calls @ [?call0, ?call1])"
    by (simp add: readCountLong_loop_step [OF p1 n1])
  have calls: "window_calls url settings ?request now (Suc (Suc k)) =
      ?call0 # ?call1 # window_calls url settings (window settings ?request (now - ?d))
        (now - ?d - ?d) k" for k
    by (simp only: window_calls_Suc window_window)
  have "\<forall>k. 0 < now - ?d - ?d - int k * ?d
      \<and> \<bar>now - ?d - ?d - int k * ?d - ?marker\<bar> \<le> deadInterval settings
    \<longrightarrow> window_count net url
          (window settings (window settings ?request (now - ?d)) (now - ?d - ?d - int k * ?d))
          ((calls @ [?call0, ?call1]) @
            window_calls url settings (window settings ?request (now - ?d)) (now - ?d - ?d) k)
        = Inr (Num 0)"
  proof (intro allI impI)
    fix k
    assume a: "0 < now - ?d - ?d - int k * ?d
      \<and> \<bar>now - ?d - ?d - int k * ?d - ?marker\<bar> \<le> deadInterval settings"
    have e: "now - ?d - ?d - int k * ?d = now - int (Suc (Suc k)) * ?d"
      by (simp add: algebra_simps)
    from pos have "0 \<le> int k * ?d"
      by simp
    with a pos have b: "int (Suc (Suc k)) * ?d - ?d \<le> deadInterval settings"
      by (simp add: algebra_simps split: if_splits)
    from a have "0 < now - int (Suc (Suc k)) * ?d"
      by (simp only: e)
    with b have "0 < now - int (Suc (Suc k)) * ?d
      \<and> int (Suc (Suc k)) * ?d - ?d \<le> deadInterval settings"
      by blast
    moreover have "2 \<le> Suc (Suc k)"
      by simp
    ultimately have "window_count net url
        (window settings ?request (now - int (Suc (Suc k)) * ?d))
        (calls @ window_calls url settings ?request now (Suc (Suc k))) = Inr (Num 0)"
      using zeros by blast
    then show "window_count net url
        (window settings (window settings ?request (now - ?d)) (now - ?d - ?d - int k * ?d))
        ((calls @ [?call0, ?call1]) @
          window_calls url settings (window settings ?request (now - ?d)) (now - ?d - ?d) k)
      = Inr (Num 0)"
      by (simp only: calls e window_window append_Cons append_Nil append_assoc)
  qed
  from readCountLong_loop_zeros [OF pos this js_add_zero]
  obtain calls' where "readCountLong_loop net url settings (window settings ?request (now - ?d))
      (now - ?d - ?d) ?marker (js_add (js_add (Num 0) c0) c1) (calls @ [?call0, ?call1])
    = Some (Inr (js_add (js_add (Num 0) c0) c1), calls')"
    by blast
  with step0 step1 readCountLong_enters_loop [OF iv] show ?thesis
    by simp
qed

text \<open>
  C1, as the claim states it, fails in its last part. The server reports 3 points in the
  most recent window (ending at 20), 4 points in the one before (ending at 15) and none
  anywhere else, so no dead interval is too long for a gap to older data; with the
  interval 5 and the dead interval 3, \<open>readCountLong\<close> returns 3 after one request, not
  the sum 7: the second window is further than the dead interval from the first.
\<close>

theorem readCountLong_two_windows_counterexample:
  "window_count (two_window_server 20 (Num 3) 15 (Num 4)) ''http://db''
      (window \<lparr>interval = 5, deadInterval = 3\<rparr> (counting_request ''m'' None) 20) []
    = Inr (Num 3)
   \<and> window_count (two_window_server 20 (Num 3) 15 (Num 4)) ''http://db''
      (window \<lparr>interval = 5, deadInterval = 3\<rparr> (counting_request ''m'' None) 15)
      [query_call ''http://db''
        (window \<lparr>interval = 5, deadInterval = 3\<rparr> (counting_request ''m'' None) 20)]
    = Inr (Num 4)
   \<and> readCountLong (two_window_server 20 (Num 3) 15 (Num 4)) ''http://db'' 20 ''m'' None
      \<lparr>interval = 5, deadInterval = 3\<rparr> [] =
    Some (Inr (Num 3), [query_call ''http://db''
      (window \<lparr>interval = 5, deadInterval = 3\<rparr> (counting_request ''m'' None) 20)])"
  by (simp add: two_window_count short_dead_interval_run)

text \<open>
  C1, amended. With an interval greater than 1: an iteration of the loop asks for the
  window from \<open>max(0, currentTime - interval + 1)\<close> to \<open>currentTime\<close>, adds the count of
  that window to the running total, sets the marker to the current time when the count
  is positive, and goes on with the current time less the interval. What \<open>readCountLong\<close>
  returns is the total that \<open>totalCount += currentCount\<close> has accumulated, from 0, over
  the counts of the windows it has asked for, in their order and in the arithmetic of
  doubles; it is their exact sum when the counts are whole numbers and every running
  total stays within \<open>2^53\<close> in magnitude. Against a server that reports the counts
  \<open>first_count\<close> and \<open>second_count\<close> for the two most recent windows and 0 for every
  later window within the dead interval of the second, it returns
  \<open>(0 + first_count) + second_count\<close> in that arithmetic, provided that the second
  window exists (\<open>interval < now\<close>) and lies within the dead interval of the first
  (\<open>interval \<le> deadInterval\<close>).
\<close>

theorem readCountLong_sums_windows:
  assumes "1 < interval settings"
  shows "(0 < currentTime \<and> \<bar>currentTime - nonZeroTime\<bar> \<le> deadInterval settings \<longrightarrow>
      readCountLong_loop net url settings request currentTime nonZeroTime totalCount calls =
        (case window_count net url (window settings request currentTime) calls of
           Inl e \<Rightarrow> Some (Inl e, calls @ [query_call url (window settings request currentTime)])
         | Inr c \<Rightarrow>
             readCountLong_loop net url settings (window settings request currentTime)
               (currentTime - interval settings)
               (if js_gt c (Num 0) then currentTime else nonZeroTime)
               (js_add totalCount c)
               (calls @ [query_call url (window settings request currentTime)])))
    \<and> start_absolute (window settings request currentTime) =
        Some (max 0 (currentTime - interval settings + 1))
    \<and> end_absolute (window settings request currentTime) = Some currentTime
    \<and> (\<forall>total' calls'.
          readCountLong net url now metricName tags settings calls = Some (Inr total', calls') \<longrightarrow>
          (\<exists>cs. calls' = calls @ window_calls url settings (counting_request metricName tags) now
                    (length cs)
            \<and> (\<forall>k<length cs.
                  window_count net url
                    (window settings (counting_request metricName tags)
                      (now - int k * interval settings))
                    (calls @ window_calls url settings (counting_request metricName tags) now k)
                  = Inr (cs ! k))
            \<and> total' = foldl js_add (Num 0) cs
            \<and> (\<forall>zs. cs = map (\<lambda>z. Num (of_int z)) zs
                  \<and> (\<forall>k\<le>length zs. \<bar>sum_list (take k zs)\<bar> \<le> 2 ^ 53)
                \<longrightarrow> total' = Num (of_int (sum_list zs)))))
    \<and> (interval settings < now \<and> interval settings \<le> deadInterval settings
        \<and> window_count net url (window settings (counting_request metricName tags) now) calls
          = Inr first_count
        \<and> window_count net url
            (window settings (counting_request metricName tags) (now - interval settings))
            (calls @ [query_call url (window settings (counting_request metricName tags) now)])
          = Inr second_count
        \<and> (\<forall>k\<ge>2. 0 < now - int k * interval settings
              \<and> int k * interval settings - interval settings \<le> deadInterval settings
            \<longrightarrow> window_count net url
                  (window settings (counting_request metricName tags)
                    (now - int k * interval settings))
                  (calls @ window_calls url settings (counting_request metricName tags) now k)
                = Inr (Num 0))
      \<longrightarrow> (\<exists>calls'. readCountLong net url now metricName tags settings calls
            = Some (Inr (js_add (js_add (Num 0) first_count) second_count), calls')))"
proof (intro conjI)
  show "0 < currentTime \<and> \<bar>currentTime - nonZeroTime\<bar> \<le> deadInterval settings \<longrightarrow>
      readCountLong_loop net url settings request currentTime nonZeroTime totalCount calls =
        (case window_count net url (window settings request currentTime) calls of
           Inl e \<Rightarrow> Some (Inl e, calls @ [query_call url (window settings request currentTime)])
         | Inr c \<Rightarrow>
             readCountLong_loop net url settings (window settings request currentTime)
               (currentTime - interval settings)
               (if js_gt c (Num 0) then currentTime else nonZeroTime)
               (js_add totalCount c)
               (calls @ [query_call url (window settings request currentTime)]))"
    using readCountLong_loop_step by blast
next
  show "start_absolute (window settings request currentTime) =
      Some (max 0 (currentTime - interval settings + 1))"
    by (simp add: window_def)
next
  show "end_absolute (window settings request currentTime) = Some currentTime"
    by (simp add: window_def)
next
  from assms have iv: "0 < interval settings"
    by simp
  show "\<forall>total' calls'.
      readCountLong net url now metricName tags settings calls = Some (Inr total', calls') \<longrightarrow>
      (\<exists>cs. calls' = calls @ window_calls url settings (counting_request metricName tags) now
                (length cs)
        \<and> (\<forall>k<length cs.
              window_count net url
                (window settings (counting_request metricName tags)
                  (now - int k * interval settings))
                (calls @ window_calls url settings (counting_request metricName tags) now k)
              = Inr (cs ! k))
        \<and> total' = foldl js_add (Num 0) cs
        \<and> (\<forall>zs. cs = map (\<lambda>z. Num (of_int z)) zs
              \<and> (\<forall>k\<le>length zs. \<bar>sum_list (take k zs)\<bar> \<le> 2 ^ 53)
            \<longrightarrow> total' = Num (of_int (sum_list zs))))"
  proof (intro allI impI)
    fix total' calls'
    assume "readCountLong net url now metricName tags settings calls = Some (Inr total', calls')"
    then have "readCountLong_loop net url settings (counting_request metricName tags) now now
        (Num 0) calls = Some (Inr total', calls')"
      by (simp only: readCountLong_enters_loop [OF assms])
    from readCountLong_loop_total [OF iv this] obtain cs where
      l: "calls' = calls @ window_calls url settings (counting_request metricName tags) now
        (length cs)"
      and w: "\<forall>k<length cs.
        window_count net url
          (window settings (counting_request metricName tags) (now - int k * interval settings))
          (calls @ window_calls url settings (counting_request metricName tags) now k)
        = Inr (cs ! k)"
      and t: "total' = foldl js_add (Num 0) cs"
      by blast
    have "\<forall>zs. cs = map (\<lambda>z. Num (of_int z)) zs
        \<and> (\<forall>k\<le>length zs. \<bar>sum_list (take k zs)\<bar> \<le> 2 ^ 53)
      \<longrightarrow> total' = Num (of_int (sum_list zs))"
    proof (intro allI impI)
      fix zs :: "int list"
      assume a: "cs = map (\<lambda>z. Num (of_int z)) zs
        \<and> (\<forall>k\<le>length zs. \<bar>sum_list (take k zs)\<bar> \<le> 2 ^ 53)"
      then have "\<forall>k\<le>length zs. \<bar>0 + sum_list (take k zs)\<bar> \<le> 2 ^ 53"
        by simp
      from foldl_js_add_whole [OF this] a t show "total' = Num (of_int (sum_list zs))"
        by simp
    qed
    with l w t show "\<exists>cs. calls' = calls @ window_calls url settings
          (counting_request metricName tags) now (length cs)
        \<and> (\<forall>k<length cs.
              window_count net url
                (window settings (counting_request metricName tags)
                  (now - int k * interval settings))
                (calls @ window_calls url settings (counting_request metricName tags) now k)
              = Inr (cs ! k))
        \<and> total' = foldl js_add (Num 0) cs
        \<and> (\<forall>zs. cs = map (\<lambda>z. Num (of_int z)) zs
              \<and> (\<forall>k\<le>length zs. \<bar>sum_list (take k zs)\<bar> \<le> 2 ^ 53)
            \<longrightarrow> total' = Num (of_int (sum_list zs)))"
      by blast
  qed
next
  show "interval settings < now \<and> interval settings \<le> deadInterval settings
      \<and> window_count net url (window settings (counting_request metricName tags) now) calls
        = Inr first_count
      \<and> window_count net url
          (window settings (counting_request metricName tags) (now - interval settings))
          (calls @ [query_call url (window settings (counting_request metricName tags) now)])
        = Inr second_count
      \<and> (\<forall>k\<ge>2. 0 < now - int k * interval settings
            \<and> int k * interval settings - interval settings \<le> deadInterval settings
          \<longrightarrow> window_count net url
                (window settings (counting_request metricName tags)
                  (now - int k * interval settings))
                (calls @ window_calls url settings (counting_request metricName tags) now k)
              = Inr (Num 0))
    \<longrightarrow> (\<exists>calls'. readCountLong net url now metricName tags settings calls
          = Some (Inr (js_add (js_add (Num 0) first_count) second_count), calls'))"
    using readCountLong_two_windows [OF assms] by blast
qed

theorem readCountLong_sums_windows_witness:
  "(\<exists>calls'. readCountLong (two_window_server 20 (Num 3) 15 (Num 4)) ''http://db'' 20 ''m'' None
        \<lparr>interval = 5, deadInterval = 5\<rparr> [] = Some (Inr (Num 7), calls'))
   \<and> (\<exists>cs.
        [query_call ''http://db''
           (window \<lparr>interval = 5, deadInterval = 5\<rparr> (counting_request ''m'' None) 20),
         query_call ''http://db''
           (window \<lparr>interval = 5, deadInterval = 5\<rparr> (counting_request ''m'' None) 15),
         query_call ''http://db''
           (window \<lparr>interval = 5, deadInterval = 5\<rparr> (counting_request ''m'' None) 10)] =
        [] @ window_calls ''http://db'' \<lparr>interval = 5, deadInterval = 5\<rparr>
          (counting_request ''m'' None) 20 (length cs)
      \<and> (\<forall>k<length cs.
            window_count (two_window_server 20 (Num 3) 15 (Num 4)) ''http://db''
              (window \<lparr>interval = 5, deadInterval = 5\<rparr> (counting_request ''m'' None)
                (20 - int k * interval \<lparr>interval = 5, deadInterval = 5\<rparr>))
              ([] @ window_calls ''http://db'' \<lparr>interval = 5, deadInterval = 5\<rparr>
                (counting_request ''m'' None) 20 k)
            = Inr (cs ! k))
      \<and> Num 7 = foldl js_add (Num 0) cs
      \<and> (\<forall>zs. cs = map (\<lambda>z. Num (of_int z)) zs
            \<and> (\<forall>k\<le>length zs. \<bar>sum_list (take k zs)\<bar> \<le> 2 ^ 53)
          \<longrightarrow> Num 7 = Num (of_int (sum_list zs))))"
proof -
  let ?S = "\<lparr>interval = 5, deadInterval = 5\<rparr>"
  let ?R = "counting_request ''m'' None"
  let ?net = "two_window_server 20 (Num 3) 15 (Num 4)"
  have h: "1 < interval ?S"
    by simp
  note T = readCountLong_sums_windows [OF h, where net = ?net and url = "''http://db''"
      and now = 20 and metricName = "''m''" and tags = None and calls = "[]"
      and first_count = "Num 3" and second_count = "Num 4"]
  have zeros: "\<forall>k\<ge>2. 0 < 20 - int k * interval ?S
      \<and> int k * interval ?S - interval ?S \<le> deadInterval ?S
    \<longrightarrow> window_count ?net ''http://db'' (window ?S ?R (20 - int k * interval ?S))
          ([] @ window_calls ''http://db'' ?S ?R 20 k) = Inr (Num 0)"
    by (auto simp add: two_window_count)
  have "interval ?S < 20 \<and> interval ?S \<le> deadInterval ?S
      \<and> window_count ?net ''http://db'' (window ?S ?R 20) [] = Inr (Num 3)
      \<and> window_count ?net ''http://db'' (window ?S ?R (20 - interval ?S))
          ([] @ [query_call ''http://db'' (window ?S ?R 20)]) = Inr (Num 4)
      \<and> (\<forall>k\<ge>2. 0 < 20 - int k * interval ?S
            \<and> int k * interval ?S - interval ?S \<le> deadInterval ?S
          \<longrightarrow> window_count ?net ''http://db'' (window ?S ?R (20 - int k * interval ?S))
                ([] @ window_calls ''http://db'' ?S ?R 20 k) = Inr (Num 0))"
    using zeros by (simp add: two_window_count)
  from T [THEN conjunct2, THEN conjunct2, THEN conjunct2, THEN conjunct2, THEN mp, OF this]
  have "\<exists>calls'. readCountLong ?net ''http://db'' 20 ''m'' None ?S []
      = Some (Inr (js_add (js_add (Num 0) (Num 3)) (Num 4)), calls')" .
  then have c: "\<exists>calls'. readCountLong ?net ''http://db'' 20 ''m'' None ?S []
      = Some (Inr (Num 7), calls')"
    by (simp add: js_add_integers)
  note b = T [THEN conjunct2, THEN conjunct2, THEN conjunct2, THEN conjunct1, THEN spec, THEN spec,
      THEN mp, OF two_window_run]
  show ?thesis
    by (rule conjI [OF c b])
qed

end
